theory Spec2Isabelle
  imports Complex_Main "HOL-Library.Sublist"
begin

section \<open>Errors\<close>

text \<open>
  The server throws two kinds of values: \<open>McpError\<close> objects it builds itself (a code and a
  message) and the errors of the Instagram client, which the code tells apart by their
  \<open>name\<close> field only.
\<close>

datatype error_code = InvalidParams | InternalError | MethodNotFound

datatype api_error_name =
  IgNotFoundError | IgLoginRequiredError | IgCheckpointError | IgRequestsLimitError | OtherError

datatype api_error = ApiError (err_name: api_error_name) (err_message: string)

datatype thrown = Mcp error_code string | Api api_error

section \<open>Cursor feeds and the pagination loops\<close>

text \<open>
  A feed object of the client answers \<open>items()\<close> with the next page, or throws; the answer
  also sets the flag that \<open>isMoreAvailable()\<close> reads. The remote service is opaque, so a feed
  is the function from the number of the request (from 0) to its answer. A remote that
  keeps announcing more pages makes the \<open>do ... while\<close> loops run forever; the loops take
  fuel, and \<open>None\<close> is the loop that has not stopped within it.
\<close>

datatype 'a page = Page (items: "'a list") (moreAvailable: bool)

type_synonym 'a feed = "nat \<Rightarrow> api_error + 'a page"

text \<open>
  The three loops of the source

  \<^verbatim>\<open>do { items = await feed.items(); acc = acc.concat(items); count += items.length;
       if (count >= target) break; <delay> } while (feed.isMoreAvailable());\<close>

  (\<open>handleAnalyzePostComments\<close> with \<open>commentCount\<close>, \<open>handleExtractDemographics\<close> with
  \<open>fetchedUsers.length\<close> for the counter, \<open>handleGenerateReport\<close> with \<open>postCount\<close> and the
  redundant second test \<open>postCount < maxPostsToFetch\<close> in the loop condition) are one
  function of the target. It returns the number of page requests made together with the
  thrown error or the accumulated sequence. \<open>k\<close> is the number of requests made so far.
\<close>

fun fetchPages ::
  "nat \<Rightarrow> 'a feed \<Rightarrow> int \<Rightarrow> nat \<Rightarrow> 'a list \<Rightarrow> int \<Rightarrow> (nat \<times> (api_error + 'a list)) option"
where
  "fetchPages 0 feed target k acc count = None"
| "fetchPages (Suc fuel) feed target k acc count =
     (case feed k of
        Inl e \<Rightarrow> Some (Suc k, Inl e)
      | Inr p \<Rightarrow>
          (let acc' = acc @ items p; count' = count + int (length (items p)) in
           if count' \<ge> target then Some (Suc k, Inr acc')
           else if moreAvailable p \<and> count' < target then fetchPages fuel feed target (Suc k) acc' count'
           else Some (Suc k, Inr acc')))"

text \<open>\<open>xs.slice(0, n)\<close> of JavaScript for an integer \<open>n\<close>: a negative end counts from the end.\<close>

definition slice0 :: "'a list \<Rightarrow> int \<Rightarrow> 'a list" where
  "slice0 xs n = (if n < 0 then take (nat (int (length xs) + n)) xs else take (nat n) xs)"

text \<open>
  The accumulation of \<open>handleAnalyzePostComments\<close> and of the account path of
  \<open>handleExtractDemographics\<close>: the loop, then \<open>slice(0, targetCount)\<close>.
\<close>

definition accumulate :: "nat \<Rightarrow> 'a feed \<Rightarrow> int \<Rightarrow> (nat \<times> (api_error + 'a list)) option" where
  "accumulate fuel feed targetCount =
     (case fetchPages fuel feed targetCount 0 [] 0 of
        None \<Rightarrow> None
      | Some (n, Inl e) \<Rightarrow> Some (n, Inl e)
      | Some (n, Inr acc) \<Rightarrow> Some (n, Inr (slice0 acc targetCount)))"

text \<open>
  The post fetch of \<open>handleGenerateReport\<close>: the same loop with the constant
  \<open>maxPostsToFetch = 200\<close> for the target, and no \<open>slice\<close> after it.
\<close>

definition maxPostsToFetch :: int where
  "maxPostsToFetch = 200"

definition fetchReportPosts :: "nat \<Rightarrow> 'a feed \<Rightarrow> (nat \<times> (api_error + 'a list)) option" where
  "fetchReportPosts fuel feed = fetchPages fuel feed maxPostsToFetch 0 [] 0"

definition pageItems :: "'a feed \<Rightarrow> nat \<Rightarrow> 'a list" where
  "pageItems feed j = (case feed j of Inl e \<Rightarrow> [] | Inr p \<Rightarrow> items p)"

definition delivered :: "'a feed \<Rightarrow> nat \<Rightarrow> 'a list" where
  "delivered feed n = concat (map (pageItems feed) [0..<n])"

text \<open>
  The condition under which the loops leave after request \<open>j\<close>: the request throws, or
  with its page the target is reached, or the source reports no further page.
\<close>

definition stopsAt :: "'a feed \<Rightarrow> int \<Rightarrow> nat \<Rightarrow> bool" where
  "stopsAt feed target j =
     (case feed j of
        Inl e \<Rightarrow> True
      | Inr p \<Rightarrow> int (length (delivered feed (Suc j))) \<ge> target \<or> \<not> moreAvailable p)"

section \<open>Users, comments and the user map of \<open>handleIdentifyLeads\<close>\<close>

text \<open>
  The user objects of the client: the fields the handlers read. A user embedded in a
  comment or listed by the followers feed may lack \<open>follower_count\<close> and \<open>biography\<close>
  (\<open>undefined\<close> is \<open>None\<close>); \<open>pk\<close> is the numeric identity.
\<close>

record ig_user =
  pk :: int
  username :: string
  full_name :: string
  is_private :: bool
  is_verified :: bool
  follower_count :: "int option"
  following_count :: "int option"
  media_count :: "int option"
  biography :: "string option"

text \<open>A comment: its author and its \<open>text\<close> field.\<close>

record comment =
  user :: ig_user
  comment_text :: string

text \<open>The entries of \<open>usersToAnalyze\<close>: \<open>{ ...user, comments: [...] }\<close>.\<close>

record engaged_user =
  profile :: ig_user
  comments :: "string list"

text \<open>\<open>String(pk)\<close> for an integer: the decimal numeral, with a minus sign when negative.\<close>

fun digitsOf :: "nat \<Rightarrow> string" where
  "digitsOf n =
     (if n < 10 then [char_of (48 + n)] else digitsOf (n div 10) @ [char_of (48 + n mod 10)])"

declare digitsOf.simps [simp del]

definition String_of :: "int \<Rightarrow> string" where
  "String_of i = (if i < 0 then CHR ''-'' # digitsOf (nat (- i)) else digitsOf (nat i))"

text \<open>
  A JavaScript \<open>Map\<close> iterates in insertion order, so it is an association list:
  \<open>has\<close>, \<open>set\<close> (a known key keeps its place, a new key goes to the end) and the in-place
  change of the value under a key (\<open>map.get(k).comments.push(t)\<close>).
\<close>

definition mapHas :: "('k \<times> 'v) list \<Rightarrow> 'k \<Rightarrow> bool" where
  "mapHas m k = (k \<in> set (map fst m))"

primrec mapSet :: "'k \<Rightarrow> 'v \<Rightarrow> ('k \<times> 'v) list \<Rightarrow> ('k \<times> 'v) list" where
  "mapSet k v [] = [(k, v)]"
| "mapSet k v (e # m) = (if fst e = k then (k, v) # m else e # mapSet k v m)"

primrec mapChange :: "'k \<Rightarrow> ('v \<Rightarrow> 'v) \<Rightarrow> ('k \<times> 'v) list \<Rightarrow> ('k \<times> 'v) list" where
  "mapChange k f [] = []"
| "mapChange k f (e # m) = (if fst e = k then (k, f (snd e)) # m else e # mapChange k f m)"

text \<open>The body of \<open>comments.forEach\<close> (post target) and of \<open>followers.forEach\<close> (account target).\<close>

definition addCommenter :: "(string \<times> engaged_user) list \<Rightarrow> comment \<Rightarrow> (string \<times> engaged_user) list" where
  "addCommenter usersToAnalyze c =
     (let userPkStr = String_of (pk (user c)) in
      if \<not> mapHas usersToAnalyze userPkStr
      then mapSet userPkStr \<lparr>profile = user c, comments = [comment_text c]\<rparr> usersToAnalyze
      else mapChange userPkStr (\<lambda>u. u\<lparr>comments := comments u @ [comment_text c]\<rparr>) usersToAnalyze)"

definition addFollower :: "(string \<times> engaged_user) list \<Rightarrow> ig_user \<Rightarrow> (string \<times> engaged_user) list" where
  "addFollower usersToAnalyze follower =
     (let followerPkStr = String_of (pk follower) in
      if \<not> mapHas usersToAnalyze followerPkStr
      then mapSet followerPkStr \<lparr>profile = follower, comments = []\<rparr> usersToAnalyze
      else usersToAnalyze)"

definition usersOfComments :: "comment list \<Rightarrow> (string \<times> engaged_user) list" where
  "usersOfComments cs = foldl addCommenter [] cs"

definition usersOfFollowers :: "ig_user list \<Rightarrow> (string \<times> engaged_user) list" where
  "usersOfFollowers fs = foldl addFollower [] fs"

text \<open>The keys of a sequence in the order of their first occurrence.\<close>

definition firstSeen :: "'k list \<Rightarrow> 'k list" where
  "firstSeen ks = rev (remdups (rev ks))"

definition commentKey :: "comment \<Rightarrow> string" where
  "commentKey c = String_of (pk (user c))"

definition keyed :: "(string \<times> engaged_user) list \<Rightarrow> bool" where
  "keyed m = list_all (\<lambda>(k, u). k = String_of (pk (profile u))) m"


text \<open>Reading a decimal numeral back, to tell the keys of different \<open>pk\<close> values apart.\<close>

definition valOf :: "string \<Rightarrow> nat" where
  "valOf ds = foldl (\<lambda>a c. 10 * a + (of_char c - 48)) 0 ds"

definition entryPk :: "string \<times> engaged_user \<Rightarrow> int" where
  "entryPk e = pk (profile (snd e))"

definition commentPk :: "comment \<Rightarrow> int" where
  "commentPk c = pk (user c)"

section \<open>Lead criteria of \<open>handleIdentifyLeads\<close>\<close>

record criteria =
  minComments :: "int option"
  minFollowers :: "int option"
  keywords_opt :: "string list option"

text \<open>
  The tests of the source are truthiness tests: a number is falsy when it is \<open>undefined\<close> or
  0, a string when it is \<open>undefined\<close> or empty, an array only when it is \<open>undefined\<close>.
\<close>

definition truthyNum :: "int option \<Rightarrow> bool" where
  "truthyNum n = (case n of None \<Rightarrow> False | Some v \<Rightarrow> v \<noteq> 0)"

definition truthyStr :: "string option \<Rightarrow> bool" where
  "truthyStr t = (case t of None \<Rightarrow> False | Some v \<Rightarrow> v \<noteq> [])"

text \<open>
  \<open>toLowerCase\<close> is a function of the language over all of Unicode; the functions below
  take it as the parameter \<open>lc\<close>. \<open>includes\<close> and \<open>Array.join\<close> are written out.
\<close>

definition includes_str :: "string \<Rightarrow> string \<Rightarrow> bool" where
  "includes_str t sub = sublist sub t"

fun join :: "string \<Rightarrow> string list \<Rightarrow> string" where
  "join sep [] = []"
| "join sep [t] = t"
| "join sep (t # ts) = t @ sep @ join sep ts"

text \<open>The detail lookup \<open>ig.user.info(pk)\<close> of the remote client.\<close>

type_synonym user_info = "int \<Rightarrow> api_error + ig_user"

text \<open>
  The first block of the loop body: the record in hand, or the fetched profile when a
  follower threshold is set and the record has no follower count, or keywords are given
  and it has no biography. \<open>None\<close> is \<open>continue\<close>: a record without \<open>pk\<close>, or a failed fetch
  while the follower threshold still cannot be checked.
\<close>

definition needsInfo :: "criteria \<Rightarrow> ig_user \<Rightarrow> bool" where
  "needsInfo crit u =
     ((truthyNum (minFollowers crit) \<and> \<not> truthyNum (follower_count u))
      \<or> (keywords_opt crit \<noteq> None \<and> \<not> truthyStr (biography u)))"

definition enrich :: "user_info \<Rightarrow> criteria \<Rightarrow> engaged_user \<Rightarrow> ig_user option" where
  "enrich info crit u =
     (if needsInfo crit (profile u)
      then (if pk (profile u) \<noteq> 0
            then (case info (pk (profile u)) of
                    Inr fetched \<Rightarrow> Some fetched
                  | Inl infoError \<Rightarrow>
                      if truthyNum (minFollowers crit) \<and> \<not> truthyNum (follower_count (profile u))
                      then None else Some (profile u))
            else None)
      else Some (profile u))"

text \<open>The three checks, each on the pair of \<open>meetsCriteria\<close> and \<open>reasons\<close>.\<close>

definition followersReason :: "int \<Rightarrow> int \<Rightarrow> string" where
  "followersReason fc mf = ''Followers: '' @ String_of fc @ '' (>='' @ String_of mf @ '')''"

definition commentsReason :: "nat \<Rightarrow> int \<Rightarrow> string" where
  "commentsReason n mc = ''Comments: '' @ String_of (int n) @ '' (>='' @ String_of mc @ '')''"

definition keywordsReason :: "string list \<Rightarrow> string" where
  "keywordsReason found = ''Keywords found: ['' @ join '', '' found @ '']''"

definition checkFollowers :: "criteria \<Rightarrow> ig_user \<Rightarrow> bool \<times> string list \<Rightarrow> bool \<times> string list" where
  "checkFollowers crit userInfo st =
     (case minFollowers crit of
        None \<Rightarrow> st
      | Some mf \<Rightarrow>
          if mf = 0 then st
          else (case follower_count userInfo of
                  None \<Rightarrow> (False, snd st)
                | Some fc \<Rightarrow>
                    if fc < mf then (False, snd st)
                    else (fst st, snd st @ [followersReason fc mf])))"

definition checkComments :: "criteria \<Rightarrow> engaged_user \<Rightarrow> bool \<times> string list \<Rightarrow> bool \<times> string list" where
  "checkComments crit u st =
     (let userCommentCount = length (comments u) in
      case minComments crit of
        None \<Rightarrow> st
      | Some mc \<Rightarrow>
          if mc = 0 then st
          else if int userCommentCount < mc then (False, snd st)
          else (fst st, snd st @ [commentsReason userCommentCount mc]))"

definition bioOf :: "ig_user \<Rightarrow> string" where
  "bioOf userInfo = (case biography userInfo of None \<Rightarrow> [] | Some b \<Rightarrow> b)"

definition foundKeywords ::
  "(string \<Rightarrow> string) \<Rightarrow> string list \<Rightarrow> ig_user \<Rightarrow> engaged_user \<Rightarrow> string list" where
  "foundKeywords lc kws userInfo u =
     (let bio = bioOf userInfo;
          commentsText = lc (join '' '' (comments u));
          bioLower = lc bio
      in filter (\<lambda>kw. includes_str bioLower (lc kw) \<or> includes_str commentsText (lc kw)) kws)"

definition checkKeywords ::
  "(string \<Rightarrow> string) \<Rightarrow> criteria \<Rightarrow> ig_user \<Rightarrow> engaged_user \<Rightarrow> bool \<times> string list \<Rightarrow> bool \<times> string list" where
  "checkKeywords lc crit userInfo u st =
     (case keywords_opt crit of
        None \<Rightarrow> st
      | Some kws \<Rightarrow>
          if length kws > 0
          then (if length (foundKeywords lc kws userInfo u) = 0 then (False, snd st)
                else (fst st, snd st @ [keywordsReason (foundKeywords lc kws userInfo u)]))
          else st)"

record lead =
  lead_username :: string
  userId :: int
  fullName :: string
  followerCount :: "int option"
  isPrivate :: bool
  reasons :: "string list"
  sampleComment :: "string option"

datatype verdict = Skipped | Rejected | Lead lead

definition evaluateUser ::
  "(string \<Rightarrow> string) \<Rightarrow> user_info \<Rightarrow> criteria \<Rightarrow> engaged_user \<Rightarrow> verdict" where
  "evaluateUser lc info crit u =
     (case enrich info crit u of
        None \<Rightarrow> Skipped
      | Some userInfo \<Rightarrow>
          (let st = checkKeywords lc crit userInfo u
                      (checkComments crit u (checkFollowers crit userInfo (True, [])))
           in if fst st
              then Lead \<lparr>lead_username = username userInfo, userId = pk userInfo,
                         fullName = full_name userInfo, followerCount = follower_count userInfo,
                         isPrivate = is_private userInfo, reasons = snd st,
                         sampleComment = (case comments u of [] \<Rightarrow> None | t # ts \<Rightarrow> Some (take 100 t))\<rparr>
              else Rejected))"

text \<open>The loop over \<open>usersToAnalyze.values()\<close> and the final \<open>slice(0, 50)\<close>.\<close>

definition potentialLeads ::
  "(string \<Rightarrow> string) \<Rightarrow> user_info \<Rightarrow> criteria \<Rightarrow> (string \<times> engaged_user) list \<Rightarrow> lead list" where
  "potentialLeads lc info crit usersToAnalyze =
     List.map_filter (\<lambda>e. case evaluateUser lc info crit (snd e) of Lead l \<Rightarrow> Some l | _ \<Rightarrow> None)
       usersToAnalyze"

definition identifyLeads ::
  "(string \<Rightarrow> string) \<Rightarrow> user_info \<Rightarrow> criteria \<Rightarrow> (string \<times> engaged_user) list \<Rightarrow> lead list" where
  "identifyLeads lc info crit usersToAnalyze = take 50 (potentialLeads lc info crit usersToAnalyze)"

text \<open>
  The criteria in the words of the specification, with \<open>absent\<close> read as the code reads it
  (\<open>undefined\<close> or 0 for a threshold, \<open>undefined\<close> or the empty list for the keywords), on
  the profile \<open>userInfo\<close> the checks use and the record \<open>u\<close> that holds the comments.
\<close>

definition followersOk :: "criteria \<Rightarrow> ig_user \<Rightarrow> bool" where
  "followersOk crit userInfo =
     (\<not> truthyNum (minFollowers crit)
      \<or> (\<exists>fc mf. follower_count userInfo = Some fc \<and> minFollowers crit = Some mf \<and> fc \<ge> mf))"

definition commentsOk :: "criteria \<Rightarrow> engaged_user \<Rightarrow> bool" where
  "commentsOk crit u =
     (\<not> truthyNum (minComments crit)
      \<or> (\<exists>mc. minComments crit = Some mc \<and> int (length (comments u)) \<ge> mc))"

definition keywordMatches :: "(string \<Rightarrow> string) \<Rightarrow> string \<Rightarrow> ig_user \<Rightarrow> engaged_user \<Rightarrow> bool" where
  "keywordMatches lc kw userInfo u =
     (sublist (lc kw) (lc (bioOf userInfo))
      \<or> sublist (lc kw) (lc (join '' '' (comments u))))"

definition keywordsGiven :: "criteria \<Rightarrow> bool" where
  "keywordsGiven crit = (case keywords_opt crit of None \<Rightarrow> False | Some kws \<Rightarrow> kws \<noteq> [])"

definition keywordsOk :: "(string \<Rightarrow> string) \<Rightarrow> criteria \<Rightarrow> ig_user \<Rightarrow> engaged_user \<Rightarrow> bool" where
  "keywordsOk lc crit userInfo u =
     (\<not> keywordsGiven crit
      \<or> (\<exists>kws. keywords_opt crit = Some kws \<and> (\<exists>kw \<in> set kws. keywordMatches lc kw userInfo u)))"

definition expectedReasons ::
  "(string \<Rightarrow> string) \<Rightarrow> criteria \<Rightarrow> ig_user \<Rightarrow> engaged_user \<Rightarrow> string list" where
  "expectedReasons lc crit userInfo u =
     (if truthyNum (minFollowers crit)
      then [followersReason (the (follower_count userInfo)) (the (minFollowers crit))] else [])
     @ (if truthyNum (minComments crit)
        then [commentsReason (length (comments u)) (the (minComments crit))] else [])
     @ (if keywordsGiven crit
        then [keywordsReason (filter (\<lambda>kw. keywordMatches lc kw userInfo u) (the (keywords_opt crit)))]
        else [])"

text \<open>
  The verdict on a user judged on the profile \<open>userInfo\<close>: a lead, built from that profile
  and carrying one reason for each criterion that is not absent, iff all three criteria
  hold; rejected otherwise.
\<close>

definition specVerdict ::
  "(string \<Rightarrow> string) \<Rightarrow> criteria \<Rightarrow> ig_user \<Rightarrow> engaged_user \<Rightarrow> verdict" where
  "specVerdict lc crit userInfo u =
     (if followersOk crit userInfo \<and> commentsOk crit u \<and> keywordsOk lc crit userInfo u
      then Lead \<lparr>lead_username = username userInfo, userId = pk userInfo,
                 fullName = full_name userInfo, followerCount = follower_count userInfo,
                 isPrivate = is_private userInfo, reasons = expectedReasons lc crit userInfo u,
                 sampleComment = (case comments u of [] \<Rightarrow> None | t # ts \<Rightarrow> Some (take 100 t))\<rparr>
      else Rejected)"

section \<open>Post URLs and \<open>getMediaIdFromUrl\<close>\<close>

text \<open>The character class \<open>[A-Za-z0-9_-]\<close> of the two regular expressions.\<close>

definition isCodeChar :: "char \<Rightarrow> bool" where
  "isCodeChar c =
     (c \<in> set ''ABCDEFGHIJKLMNOPQRSTUVWXYZabcdefghijklmnopqrstuvwxyz0123456789_-'')"

definition stripPrefix :: "string \<Rightarrow> string \<Rightarrow> string option" where
  "stripPrefix p t = (if prefix p t then Some (drop (length p) t) else None)"

text \<open>
  \<open>isValidPostUrl\<close>: the pattern
  \<^verbatim>\<open>^https:\/\/(www\.)?instagram\.com\/p\/[A-Za-z0-9_-]+\/?\<close> is anchored at the start only;
  the optional group is tried with and without \<open>www.\<close>.
\<close>

definition matchPostPath :: "string \<Rightarrow> bool" where
  "matchPostPath t =
     (case stripPrefix ''instagram.com/p/'' t of
        None \<Rightarrow> False
      | Some r \<Rightarrow> takeWhile isCodeChar r \<noteq> [])"

definition isValidPostUrl :: "string \<Rightarrow> bool" where
  "isValidPostUrl url =
     (case stripPrefix ''https://'' url of
        None \<Rightarrow> False
      | Some r \<Rightarrow>
          (case stripPrefix ''www.'' r of
             None \<Rightarrow> matchPostPath r
           | Some r' \<Rightarrow> matchPostPath r' \<or> matchPostPath r))"

text \<open>
  \<open>extractPostIdFromUrl\<close>: the first place where \<^verbatim>\<open>\/p\/([A-Za-z0-9_-]+)\<close> matches, and
  there the longest run of code characters; the empty string when there is none.
\<close>

fun extractPostIdFromUrl :: "string \<Rightarrow> string" where
  "extractPostIdFromUrl [] = []"
| "extractPostIdFromUrl (c # cs) =
     (case stripPrefix ''/p/'' (c # cs) of
        None \<Rightarrow> extractPostIdFromUrl cs
      | Some r \<Rightarrow>
          if takeWhile isCodeChar r \<noteq> [] then takeWhile isCodeChar r
          else extractPostIdFromUrl cs)"

text \<open>\<open>isValidUsername\<close>: \<^verbatim>\<open>^[A-Za-z0-9._]+$\<close>.\<close>

definition isValidUsername :: "string \<Rightarrow> bool" where
  "isValidUsername t =
     (t \<noteq> [] \<and> list_all (\<lambda>c. c \<in> set ''ABCDEFGHIJKLMNOPQRSTUVWXYZabcdefghijklmnopqrstuvwxyz0123456789._'') t)"

text \<open>
  The answer of \<open>ig.media.getByUrl(url)\<close>: it throws (also when the method does not exist in
  the installed client, a \<open>TypeError\<close>), or it returns an object that may be empty and whose
  \<open>pk\<close> may be missing.
\<close>

datatype media_info = MediaInfo (media_pk: "string option")

type_synonym media_lookup = "string \<Rightarrow> api_error + media_info option"

definition getMediaIdFromUrl :: "media_lookup \<Rightarrow> string \<Rightarrow> string option" where
  "getMediaIdFromUrl getByUrl url =
     (let shortcode = extractPostIdFromUrl url in
      if shortcode = [] then None
      else
        (let mediaId =
               (case getByUrl url of
                  Inr mediaInfo \<Rightarrow>
                    (case mediaInfo of
                       None \<Rightarrow> None
                     | Some mi \<Rightarrow> if truthyStr (media_pk mi) then media_pk mi else None)
                | Inl lookupError \<Rightarrow> Some shortcode)
         in if \<not> truthyStr mediaId then None else mediaId))"

text \<open>What the handlers do with the answer: \<open>if (!mediaId) throw new McpError(...)\<close>.\<close>

definition resolvePost :: "media_lookup \<Rightarrow> string \<Rightarrow> thrown + string" where
  "resolvePost getByUrl url =
     (case getMediaIdFromUrl getByUrl url of
        None \<Rightarrow> Inl (Mcp InvalidParams ''Could not extract media ID from post URL.'')
      | Some mediaId \<Rightarrow> Inr mediaId)"

section \<open>Numbers of JavaScript and the engagement rate\<close>

text \<open>
  The arithmetic of the engagement rate is on JavaScript numbers: IEEE 754 doubles, where
  every operation returns the double nearest to the exact result (a tie going to the even
  mantissa), a result of magnitude \<open>2^1024\<close> or more is an infinity, and a division by zero
  gives \<open>NaN\<close> or an infinity instead of failing. A finite double is kept as the rational
  number it stands for; the sign of zero is not kept.
\<close>

datatype jsnum = Finite rat | NaN | PosInfinity | NegInfinity

function log2floor :: "int \<Rightarrow> int" where
  "log2floor n = (if n < 2 then 0 else 1 + log2floor (n div 2))"
  by pat_completeness auto
termination
  by (relation "measure nat") auto

declare log2floor.simps [simp del]

definition pow2 :: "int \<Rightarrow> rat" where
  "pow2 e = (if e \<ge> 0 then 2 ^ nat e else 1 / 2 ^ nat (- e))"

text \<open>The exponent \<open>e\<close> of a positive rational: \<open>2^e \<le> a < 2^(e+1)\<close>.\<close>

definition exponentOf :: "rat \<Rightarrow> int" where
  "exponentOf a =
     (let (p, q) = quotient_of a;
          e0 = log2floor p - log2floor q
      in if a \<ge> pow2 e0 then e0 else e0 - 1)"

definition roundHalfEven :: "rat \<Rightarrow> int" where
  "roundHalfEven x =
     (let f = \<lfloor>x\<rfloor>; d = x - of_int f
      in if d < 1 / 2 then f else if d > 1 / 2 then f + 1 else if even f then f else f + 1)"

text \<open>
  The double nearest to a rational: 53 bits of mantissa, the spacing of the subnormals
  (\<open>2^-1074\<close>) below the smallest normal exponent.
\<close>

definition dbl :: "rat \<Rightarrow> jsnum" where
  "dbl r =
     (if r = 0 then Finite 0
      else
        (let a = \<bar>r\<bar>;
             e = exponentOf a;
             q = pow2 (max (e - 52) (- 1074));
             m = of_int (roundHalfEven (a / q)) * q
         in if e < 1023 then Finite (if r > 0 then m else - m)
            else if m \<ge> pow2 1024 then (if r > 0 then PosInfinity else NegInfinity)
            else Finite (if r > 0 then m else - m)))"

text \<open>The number of an integer count, as the client reads it from the response.\<close>

definition num :: "int \<Rightarrow> jsnum" where
  "num v = dbl (of_int v)"

fun jsdiv :: "jsnum \<Rightarrow> jsnum \<Rightarrow> jsnum" where
  "jsdiv (Finite a) (Finite b) =
     (if b \<noteq> 0 then dbl (a / b)
      else if a = 0 then NaN else if a > 0 then PosInfinity else NegInfinity)"
| "jsdiv (Finite a) PosInfinity = Finite 0"
| "jsdiv (Finite a) NegInfinity = Finite 0"
| "jsdiv PosInfinity (Finite b) = (if b < 0 then NegInfinity else PosInfinity)"
| "jsdiv NegInfinity (Finite b) = (if b < 0 then PosInfinity else NegInfinity)"
| "jsdiv _ _ = NaN"

fun jsadd :: "jsnum \<Rightarrow> jsnum \<Rightarrow> jsnum" where
  "jsadd (Finite a) (Finite b) = dbl (a + b)"
| "jsadd PosInfinity (Finite b) = PosInfinity"
| "jsadd (Finite a) PosInfinity = PosInfinity"
| "jsadd PosInfinity PosInfinity = PosInfinity"
| "jsadd NegInfinity (Finite b) = NegInfinity"
| "jsadd (Finite a) NegInfinity = NegInfinity"
| "jsadd NegInfinity NegInfinity = NegInfinity"
| "jsadd _ _ = NaN"

fun jsmul :: "jsnum \<Rightarrow> jsnum \<Rightarrow> jsnum" where
  "jsmul (Finite a) (Finite b) = dbl (a * b)"
| "jsmul PosInfinity (Finite b) =
     (if b = 0 then NaN else if b > 0 then PosInfinity else NegInfinity)"
| "jsmul NegInfinity (Finite b) =
     (if b = 0 then NaN else if b > 0 then NegInfinity else PosInfinity)"
| "jsmul (Finite a) PosInfinity =
     (if a = 0 then NaN else if a > 0 then PosInfinity else NegInfinity)"
| "jsmul (Finite a) NegInfinity =
     (if a = 0 then NaN else if a > 0 then NegInfinity else PosInfinity)"
| "jsmul PosInfinity PosInfinity = PosInfinity"
| "jsmul NegInfinity NegInfinity = PosInfinity"
| "jsmul PosInfinity NegInfinity = NegInfinity"
| "jsmul NegInfinity PosInfinity = NegInfinity"
| "jsmul _ _ = NaN"

text \<open>
  \<open>parseFloat(x.toFixed(2))\<close>. \<open>toFixed(2)\<close> prints the multiple of 1/100 nearest to the
  value of the double \<open>x\<close> (of two equally near, the one larger in magnitude), and
  \<open>parseFloat\<close> reads the double nearest to what is printed. From \<open>10^21\<close> on \<open>toFixed\<close>
  prints the number itself; \<open>NaN\<close> and the infinities print as their names and parse back.
\<close>

definition round2 :: "rat \<Rightarrow> rat" where
  "round2 r = (if r < 0 then - (of_int \<lfloor>(- r) * 100 + 1 / 2\<rfloor> / 100)
               else of_int \<lfloor>r * 100 + 1 / 2\<rfloor> / 100)"

fun toFixed2 :: "jsnum \<Rightarrow> jsnum" where
  "toFixed2 (Finite r) = (if \<bar>r\<bar> \<ge> 10 ^ 21 then Finite r else dbl (round2 r))"
| "toFixed2 x = x"

text \<open>The posts of the user feed: the fields the handlers read.\<close>

record post =
  like_count :: "int option"
  comment_count :: "int option"
  taken_at :: int
  code :: string

text \<open>\<open>x || 0\<close> and \<open>followerCount > 0\<close> on a count that may be \<open>undefined\<close>.\<close>

definition orZero :: "int option \<Rightarrow> int" where
  "orZero n = (case n of None \<Rightarrow> 0 | Some v \<Rightarrow> v)"

definition positive :: "int option \<Rightarrow> bool" where
  "positive n = (case n of None \<Rightarrow> False | Some v \<Rightarrow> v > 0)"

text \<open>The two \<open>reduce\<close> calls: the counts added from the left, starting at 0.\<close>

definition totalLikes :: "post list \<Rightarrow> jsnum" where
  "totalLikes recentPosts =
     foldl (\<lambda>sum p. jsadd sum (num (orZero (like_count p)))) (Finite 0) recentPosts"

definition totalComments :: "post list \<Rightarrow> jsnum" where
  "totalComments recentPosts =
     foldl (\<lambda>sum p. jsadd sum (num (orZero (comment_count p)))) (Finite 0) recentPosts"

definition avgLikes :: "post list \<Rightarrow> jsnum" where
  "avgLikes recentPosts = jsdiv (totalLikes recentPosts) (num (int (length recentPosts)))"

definition avgComments :: "post list \<Rightarrow> jsnum" where
  "avgComments recentPosts = jsdiv (totalComments recentPosts) (num (int (length recentPosts)))"

text \<open>\<open>((avgLikes + avgComments) / followerCount) * 100\<close>, as both handlers compute it.\<close>

definition rateFormula :: "post list \<Rightarrow> int \<Rightarrow> jsnum" where
  "rateFormula recentPosts nFollowers =
     jsmul (jsdiv (jsadd (avgLikes recentPosts) (avgComments recentPosts)) (num nFollowers))
           (num 100)"

text \<open>
  \<open>handleCompareAccounts\<close>: \<open>engagementRate\<close> starts at 0; only for \<open>followerCount > 0\<close> the
  first page of the user's posts is fetched (the fetch may throw), and only for a
  non-empty page the rate is computed.
\<close>

definition compareEngagementRate :: "int option \<Rightarrow> (api_error + post list) \<Rightarrow> api_error + jsnum" where
  "compareEngagementRate nFollowers fetched =
     (if positive nFollowers
      then (case fetched of
              Inl e \<Rightarrow> Inl e
            | Inr recentPosts \<Rightarrow>
                Inr (if length recentPosts > 0 then rateFormula recentPosts (the nFollowers)
                     else Finite 0))
      else Inr (Finite 0))"

text \<open>
  \<open>handleGenerateReport\<close>: with no post in the period the summary carries the rate 0;
  otherwise \<open>followerCount > 0 ? formula : 0\<close>.
\<close>

definition reportEngagementRate :: "int option \<Rightarrow> post list \<Rightarrow> jsnum" where
  "reportEngagementRate nFollowers recentPosts =
     (if length recentPosts = 0 then Finite 0
      else if positive nFollowers then rateFormula recentPosts (the nFollowers)
      else Finite 0)"

text \<open>
  The rate in the words of the specification: the sum of the two averages over the
  follower count, times 100, in the arithmetic of the language, shown to two decimals.
\<close>

definition specRate :: "jsnum \<Rightarrow> jsnum \<Rightarrow> int \<Rightarrow> jsnum" where
  "specRate averageLikes averageComments nFollowers =
     toFixed2 (jsmul (jsdiv (jsadd averageLikes averageComments) (num nFollowers)) (num 100))"

section \<open>The date range of \<open>handleGenerateReport\<close>\<close>

text \<open>
  \<open>new Date(s).getTime()\<close> is the parser of the language, taken as a parameter: the time of
  the date in milliseconds, \<open>None\<close> for a string that is no date (\<open>NaN\<close>).
  \<open>start\<close> and \<open>end\<close> are \<open>null\<close> for a missing or empty string; \<open>None\<close> stands for \<open>null\<close> and
  for \<open>NaN\<close>, which the filter treats alike. The bounds are kept as exact rationals: for a
  date at a whole second, such as midnight, the quotient by 1000 is an integer, which the
  numbers of the language hold exactly.
\<close>

type_synonym date_parser = "string \<Rightarrow> int option"

definition startOf :: "date_parser \<Rightarrow> string option \<Rightarrow> rat option" where
  "startOf getTime startDate =
     (if truthyStr startDate
      then map_option (\<lambda>ms. of_int ms / 1000) (getTime (the startDate))
      else None)"

definition endOf :: "date_parser \<Rightarrow> string option \<Rightarrow> rat option" where
  "endOf getTime endDate =
     (if truthyStr endDate
      then map_option (\<lambda>ms. of_int ms / 1000 + (24 * 60 * 60 - 1)) (getTime (the endDate))
      else None)"

text \<open>\<open>start ? postTimestamp >= start : true\<close>: a bound that is 0 is falsy as well.\<close>

definition truthyBound :: "rat option \<Rightarrow> bool" where
  "truthyBound b = (case b of None \<Rightarrow> False | Some v \<Rightarrow> v \<noteq> 0)"

definition inPeriod :: "rat option \<Rightarrow> rat option \<Rightarrow> post \<Rightarrow> bool" where
  "inPeriod startB endB p =
     (let postTimestamp = taken_at p;
          isAfterStart = (if truthyBound startB then of_int postTimestamp \<ge> the startB else True);
          isBeforeEnd = (if truthyBound endB then of_int postTimestamp \<le> the endB else True)
      in isAfterStart \<and> isBeforeEnd)"

definition postsInPeriod :: "date_parser \<Rightarrow> string option \<Rightarrow> string option \<Rightarrow> post list \<Rightarrow> post list" where
  "postsInPeriod getTime startDate endDate allPosts =
     filter (inPeriod (startOf getTime startDate) (endOf getTime endDate)) allPosts"

section \<open>The remote client and the five handlers\<close>

text \<open>
  The two functions of the language that the handlers call and that are not written out
  here: \<open>new Date(s).getTime()\<close> and \<open>String.prototype.toLowerCase\<close>.
\<close>

record builtins =
  dateGetTime :: date_parser
  toLowerCase :: "string \<Rightarrow> string"

text \<open>
  What the server uses of the Instagram client, as answers to requests: the outcome of the
  \<open>n\<close>-th login (\<open>None\<close> is success), the media lookup, the feeds (a fresh feed object for
  each call of \<open>ig.feed.x(id)\<close>) and the user lookups.
\<close>

record remote =
  ig_login :: "nat \<Rightarrow> api_error option"
  ig_getByUrl :: media_lookup
  ig_mediaComments :: "string \<Rightarrow> comment feed"
  ig_likers :: "string \<Rightarrow> api_error + ig_user list option"
  ig_getIdByUsername :: "string \<Rightarrow> api_error + int"
  ig_info :: user_info
  ig_userFeed :: "int \<Rightarrow> post feed"
  ig_accountFollowers :: "int \<Rightarrow> ig_user feed"

text \<open>A single \<open>await feed.items()\<close>.\<close>

definition firstPage :: "'a feed \<Rightarrow> api_error + 'a list" where
  "firstPage feed = (case feed 0 of Inl e \<Rightarrow> Inl e | Inr p \<Rightarrow> Inr (items p))"

subsection \<open>\<open>handleAnalyzePostComments\<close>\<close>

record analyze_args =
  postUrl :: string
  maxComments :: "int option"

text \<open>The analysis without its constant fields and without the timestamps of the samples.\<close>

record comment_analysis =
  totalCommentsFetched :: nat
  analysisLeads :: "(string \<times> string) list"
  sampleComments :: "(string \<times> string) list"

definition analyzeComments :: "comment list \<Rightarrow> comment_analysis" where
  "analyzeComments cs =
     \<lparr>totalCommentsFetched = length cs,
      analysisLeads =
        map (\<lambda>c. (username (user c), take 100 (comment_text c)))
          (filter (\<lambda>c. includes_str (comment_text c) ''interested'' \<or> includes_str (comment_text c) ''DM'') cs),
      sampleComments = map (\<lambda>c. (username (user c), take 100 (comment_text c))) (take 5 cs)\<rparr>"

definition analyzeError :: "string \<Rightarrow> api_error \<Rightarrow> thrown" where
  "analyzeError mediaId e =
     (if err_name e = IgNotFoundError
      then Mcp InvalidParams (''Post with media ID '' @ mediaId @ '' not found or access denied.'')
      else Mcp InternalError (''Failed to fetch or analyze comments: '' @ err_message e))"

definition handleAnalyzePostComments ::
  "nat \<Rightarrow> remote \<Rightarrow> analyze_args \<Rightarrow> (thrown + comment_analysis) option" where
  "handleAnalyzePostComments fuel ig args =
     (let maxC = (case maxComments args of None \<Rightarrow> 100 | Some m \<Rightarrow> m) in
      if \<not> isValidPostUrl (postUrl args)
      then Some (Inl (Mcp InvalidParams ''Invalid post URL format.''))
      else
        (case resolvePost (ig_getByUrl ig) (postUrl args) of
           Inl t \<Rightarrow> Some (Inl t)
         | Inr mediaId \<Rightarrow>
             (case accumulate fuel (ig_mediaComments ig mediaId) maxC of
                None \<Rightarrow> None
              | Some (n, Inl e) \<Rightarrow> Some (Inl (analyzeError mediaId e))
              | Some (n, Inr cs) \<Rightarrow> Some (Inr (analyzeComments cs)))))"

subsection \<open>\<open>handleCompareAccounts\<close>\<close>

record compare_args =
  accounts :: "string list"
  metrics :: "string list option"

record account_metrics =
  acct_userId :: int
  acct_fullName :: string
  acct_isPrivate :: bool
  acct_isVerified :: bool
  acct_followers :: "int option"
  acct_following :: "int option"
  acct_posts :: "int option"
  acct_engagementRate :: "jsnum option"

datatype account_entry = AccountMetrics account_metrics | AccountError string

text \<open>The \<open>catch\<close> of the loop body: the entry that replaces the metrics.\<close>

definition accountError :: "api_error \<Rightarrow> account_entry" where
  "accountError e =
     (if err_name e = IgNotFoundError then AccountError ''Account not found.''
      else AccountError (''Failed to fetch data: '' @ err_message e))"

definition compareAccount :: "remote \<Rightarrow> string list \<Rightarrow> string \<Rightarrow> account_entry" where
  "compareAccount ig ms uname =
     (case ig_getIdByUsername ig uname of
        Inl e \<Rightarrow> accountError e
      | Inr uid \<Rightarrow>
          (case ig_info ig uid of
             Inl e \<Rightarrow> accountError e
           | Inr userInfo \<Rightarrow>
               (case compareEngagementRate (follower_count userInfo) (firstPage (ig_userFeed ig uid)) of
                  Inl e \<Rightarrow> accountError e
                | Inr engagementRate \<Rightarrow>
                    AccountMetrics
                      \<lparr>acct_userId = uid, acct_fullName = full_name userInfo,
                       acct_isPrivate = is_private userInfo, acct_isVerified = is_verified userInfo,
                       acct_followers =
                         (if ''followers'' \<in> set ms then follower_count userInfo else None),
                       acct_following =
                         (if ''following'' \<in> set ms then following_count userInfo else None),
                       acct_posts = (if ''posts'' \<in> set ms then media_count userInfo else None),
                       acct_engagementRate =
                         (if ''engagement'' \<in> set ms then Some (toFixed2 engagementRate) else None)\<rparr>)))"

text \<open>
  \<open>comparisonResults\<close> is a plain object used as a dictionary: the map of its own
  properties (the order of enumeration is not part of the model). An assignment
  \<open>obj[k] = v\<close> adds or replaces the own property \<open>k\<close>, except under the key \<open>__proto__\<close>,
  where it calls the setter inherited from \<open>Object.prototype\<close>: the value, an object,
  becomes the prototype and no own property is added.
\<close>

definition objSet :: "string \<Rightarrow> 'v \<Rightarrow> (string \<rightharpoonup> 'v) \<Rightarrow> (string \<rightharpoonup> 'v)" where
  "objSet k v obj = (if k = ''__proto__'' then obj else obj(k \<mapsto> v))"

definition handleCompareAccounts :: "remote \<Rightarrow> compare_args \<Rightarrow> thrown + (string \<rightharpoonup> account_entry)" where
  "handleCompareAccounts ig args =
     (let ms = (case metrics args of None \<Rightarrow> [''followers'', ''engagement'', ''posts''] | Some m \<Rightarrow> m) in
      if accounts args = []
      then Inl (Mcp InvalidParams ''At least one account handle must be provided.'')
      else if list_ex (\<lambda>acc. \<not> isValidUsername acc) (accounts args)
      then Inl (Mcp InvalidParams ''One or more account handles are invalid.'')
      else Inr (foldl (\<lambda>comparisonResults uname.
                  objSet uname (compareAccount ig ms uname) comparisonResults)
                Map.empty (accounts args)))"

subsection \<open>The target of \<open>handleExtractDemographics\<close> and \<open>handleIdentifyLeads\<close>\<close>

text \<open>
  Both handlers begin with the same resolution of \<open>accountOrPostUrl\<close>. The source keeps
  \<open>targetId = String(userId)\<close> and reads it back with \<open>parseInt(targetId, 10)\<close>; the target
  here carries the user id itself.
\<close>

datatype target = PostTarget string | AccountTarget int

definition resolveTarget :: "remote \<Rightarrow> string \<Rightarrow> thrown + target" where
  "resolveTarget ig t =
     (if isValidPostUrl t
      then (case resolvePost (ig_getByUrl ig) t of
              Inl err \<Rightarrow> Inl err
            | Inr mediaId \<Rightarrow> Inr (PostTarget mediaId))
      else if isValidUsername t
      then (case ig_getIdByUsername ig t of
              Inr uid \<Rightarrow> Inr (AccountTarget uid)
            | Inl e \<Rightarrow>
                Inl (if err_name e = IgNotFoundError
                     then Mcp InvalidParams (''Account '' @ t @ '' not found.'')
                     else Mcp InternalError (''Failed to get user ID for '' @ t @ '': '' @ err_message e)))
      else Inl (Mcp InvalidParams ''Invalid input. Provide a valid Instagram username or post URL.''))"

definition targetError :: "target \<Rightarrow> string \<Rightarrow> api_error \<Rightarrow> thrown" where
  "targetError tgt what e =
     (if err_name e = IgNotFoundError
      then Mcp InvalidParams
             ((case tgt of PostTarget m \<Rightarrow> ''Post'' | AccountTarget u \<Rightarrow> ''Account'')
              @ '' not found or access denied.'')
      else Mcp InternalError (what @ err_message e))"

subsection \<open>\<open>handleExtractDemographics\<close>\<close>

record demographics_args =
  accountOrPostUrl :: string
  sampleSize :: "int option"

record demographics =
  sampleAnalyzed :: nat
  privateShare :: jsnum
  verifiedShare :: jsnum
  sampleUserProfiles :: "(string \<times> string \<times> bool) list"

datatype demographics_result = NoUsersFound | Demographics demographics

definition summarizeUsers :: "ig_user list \<Rightarrow> demographics_result" where
  "summarizeUsers users =
     (if length users = 0 then NoUsersFound
      else Demographics
        \<lparr>sampleAnalyzed = length users,
         privateShare = jsdiv (num (int (length (filter is_private users))))
                              (num (int (length users))),
         verifiedShare = jsdiv (num (int (length (filter is_verified users))))
                               (num (int (length users))),
         sampleUserProfiles = map (\<lambda>u. (username u, full_name u, is_private u)) (take 5 users)\<rparr>)"

definition handleExtractDemographics ::
  "nat \<Rightarrow> remote \<Rightarrow> demographics_args \<Rightarrow> (thrown + demographics_result) option" where
  "handleExtractDemographics fuel ig args =
     (let size = (case sampleSize args of None \<Rightarrow> 50 | Some n \<Rightarrow> n) in
      case resolveTarget ig (accountOrPostUrl args) of
        Inl t \<Rightarrow> Some (Inl t)
      | Inr (PostTarget mediaId) \<Rightarrow>
          (case ig_likers ig mediaId of
             Inl e \<Rightarrow>
               Some (Inl (targetError (PostTarget mediaId)
                            ''Failed to fetch users for demographic analysis: '' e))
           | Inr likersUsers \<Rightarrow>
               Some (Inr (summarizeUsers
                      (slice0 (case likersUsers of None \<Rightarrow> [] | Some us \<Rightarrow> us) size))))
      | Inr (AccountTarget uid) \<Rightarrow>
          (case accumulate fuel (ig_accountFollowers ig uid) size of
             None \<Rightarrow> None
           | Some (n, Inl e) \<Rightarrow>
               Some (Inl (targetError (AccountTarget uid)
                            ''Failed to fetch users for demographic analysis: '' e))
           | Some (n, Inr users) \<Rightarrow> Some (Inr (summarizeUsers users))))"

subsection \<open>\<open>handleIdentifyLeads\<close>\<close>

record leads_args =
  leadsSource :: string
  criteria_opt :: "criteria option"

definition handleIdentifyLeads :: "builtins \<Rightarrow> remote \<Rightarrow> leads_args \<Rightarrow> thrown + lead list" where
  "handleIdentifyLeads js ig args =
     (let crit = (case criteria_opt args of
                    None \<Rightarrow> \<lparr>minComments = None, minFollowers = None, keywords_opt = None\<rparr>
                  | Some c \<Rightarrow> c) in
      case resolveTarget ig (leadsSource args) of
        Inl t \<Rightarrow> Inl t
      | Inr (PostTarget mediaId) \<Rightarrow>
          (case firstPage (ig_mediaComments ig mediaId) of
             Inl e \<Rightarrow> Inl (targetError (PostTarget mediaId) ''Failed to process lead identification: '' e)
           | Inr cs \<Rightarrow> Inr (identifyLeads (toLowerCase js) (ig_info ig) crit (usersOfComments cs)))
      | Inr (AccountTarget uid) \<Rightarrow>
          (case firstPage (ig_accountFollowers ig uid) of
             Inl e \<Rightarrow> Inl (targetError (AccountTarget uid) ''Failed to process lead identification: '' e)
           | Inr followers \<Rightarrow> Inr (identifyLeads (toLowerCase js) (ig_info ig) crit (usersOfFollowers followers))))"

subsection \<open>\<open>handleGenerateReport\<close>\<close>

record report_args =
  account :: string
  startDate :: "string option"
  endDate :: "string option"

text \<open>The report without the echoed account fields, the captions and the timestamps.\<close>

record report =
  report_followers :: "int option"
  postsAnalyzed :: nat
  report_totalLikes :: jsnum
  report_totalComments :: jsnum
  avgLikesPerPost :: jsnum
  avgCommentsPerPost :: jsnum
  avgEngagementRate :: jsnum
  topPostsByLikes :: "(string \<times> int option \<times> int option) list"

text \<open>
  With no post in the period the handler returns its short summary, all zero; otherwise
  the totals, the rounded averages and the three posts with the most likes (a stable sort).
\<close>

definition buildReport :: "builtins \<Rightarrow> report_args \<Rightarrow> ig_user \<Rightarrow> post list \<Rightarrow> report" where
  "buildReport js args userInfo allPosts =
     (let recentPosts = postsInPeriod (dateGetTime js) (startDate args) (endDate args) allPosts in
      if length recentPosts = 0
      then \<lparr>report_followers = follower_count userInfo, postsAnalyzed = 0,
            report_totalLikes = Finite 0,
            report_totalComments = Finite 0, avgLikesPerPost = Finite 0, avgCommentsPerPost = Finite 0,
            avgEngagementRate = Finite 0, topPostsByLikes = []\<rparr>
      else \<lparr>report_followers = follower_count userInfo, postsAnalyzed = length recentPosts,
            report_totalLikes = totalLikes recentPosts,
            report_totalComments = totalComments recentPosts,
            avgLikesPerPost = toFixed2 (avgLikes recentPosts),
            avgCommentsPerPost = toFixed2 (avgComments recentPosts),
            avgEngagementRate = toFixed2 (reportEngagementRate (follower_count userInfo) recentPosts),
            topPostsByLikes =
              map (\<lambda>p. (code p, like_count p, comment_count p))
                (take 3 (sort_key (\<lambda>p. - orZero (like_count p)) recentPosts))\<rparr>)"

definition reportError :: "string \<Rightarrow> api_error \<Rightarrow> thrown" where
  "reportError acc e =
     (if err_name e = IgNotFoundError then Mcp InvalidParams (''Account '' @ acc @ '' not found.'')
      else Mcp InternalError (''Failed to generate engagement report: '' @ err_message e))"

definition handleGenerateReport ::
  "nat \<Rightarrow> builtins \<Rightarrow> remote \<Rightarrow> report_args \<Rightarrow> (thrown + report) option" where
  "handleGenerateReport fuel js ig args =
     (if \<not> isValidUsername (account args)
      then Some (Inl (Mcp InvalidParams ''Invalid account handle.''))
      else
        (case ig_getIdByUsername ig (account args) of
           Inl e \<Rightarrow> Some (Inl (reportError (account args) e))
         | Inr uid \<Rightarrow>
             (case ig_info ig uid of
                Inl e \<Rightarrow> Some (Inl (reportError (account args) e))
              | Inr userInfo \<Rightarrow>
                  (case fetchReportPosts fuel (ig_userFeed ig uid) of
                     None \<Rightarrow> None
                   | Some (n, Inl e) \<Rightarrow> Some (Inl (reportError (account args) e))
                   | Some (n, Inr allPosts) \<Rightarrow>
                       Some (Inr (buildReport js args userInfo allPosts))))))"

section \<open>The session and the dispatcher\<close>

text \<open>
  \<open>isLoggedIn\<close> is the one field of the server that changes; \<open>loginCalls\<close> counts the calls
  of \<open>ig.account.login\<close>, to tell a login that was made from one that was not.
\<close>

record session =
  isLoggedIn :: bool
  loginCalls :: nat

definition loginToInstagram :: "remote \<Rightarrow> session \<Rightarrow> bool \<times> session" where
  "loginToInstagram ig s =
     (if isLoggedIn s then (True, s)
      else (case ig_login ig (loginCalls s) of
              None \<Rightarrow> (True, s\<lparr>isLoggedIn := True, loginCalls := Suc (loginCalls s)\<rparr>)
            | Some e \<Rightarrow> (False, s\<lparr>loginCalls := Suc (loginCalls s)\<rparr>)))"

datatype tool_call =
  AnalyzePostComments analyze_args
| CompareAccounts compare_args
| ExtractDemographics demographics_args
| IdentifyLeads leads_args
| GenerateEngagementReport report_args
| OtherTool string

datatype tool_result =
  CommentAnalysis comment_analysis
| Comparison "string \<rightharpoonup> account_entry"
| DemographicsResult demographics_result
| LeadList "lead list"
| EngagementReport report

text \<open>The \<open>switch\<close> of the request handler.\<close>

definition runTool ::
  "nat \<Rightarrow> builtins \<Rightarrow> remote \<Rightarrow> tool_call \<Rightarrow> (thrown + tool_result) option" where
  "runTool fuel js ig call =
     (case call of
        AnalyzePostComments args \<Rightarrow>
          map_option (map_sum id CommentAnalysis) (handleAnalyzePostComments fuel ig args)
      | CompareAccounts args \<Rightarrow> Some (map_sum id Comparison (handleCompareAccounts ig args))
      | ExtractDemographics args \<Rightarrow>
          map_option (map_sum id DemographicsResult) (handleExtractDemographics fuel ig args)
      | IdentifyLeads args \<Rightarrow> Some (map_sum id LeadList (handleIdentifyLeads js ig args))
      | GenerateEngagementReport args \<Rightarrow>
          map_option (map_sum id EngagementReport) (handleGenerateReport fuel js ig args)
      | OtherTool name \<Rightarrow> Some (Inl (Mcp MethodNotFound (''Tool '' @ name @ '' not found''))))"

text \<open>
  The \<open>catch\<close> of the request handler: an \<open>McpError\<close> is thrown on as it is; the errors of the
  client are told apart by name, and a login-required or checkpoint error resets
  \<open>isLoggedIn\<close>.
\<close>

definition mapToolError :: "session \<Rightarrow> thrown \<Rightarrow> session \<times> thrown" where
  "mapToolError s err =
     (case err of
        Mcp c m \<Rightarrow> (s, Mcp c m)
      | Api e \<Rightarrow>
          if err_name e = IgNotFoundError
          then (s, Mcp InvalidParams (''Instagram resource not found: '' @ err_message e))
          else if err_name e = IgLoginRequiredError \<or> err_name e = IgCheckpointError
          then (s\<lparr>isLoggedIn := False\<rparr>,
                Mcp InternalError
                  (''Instagram login required or challenge encountered: '' @ err_message e))
          else if err_name e = IgRequestsLimitError
          then (s, Mcp InternalError (''Instagram rate limit hit: '' @ err_message e))
          else (s, Mcp InternalError
                     (''An unexpected error occurred while executing the tool: ''
                      @ (if err_message e = [] then ''Unknown error'' else err_message e))))"

definition callTool ::
  "nat \<Rightarrow> builtins \<Rightarrow> remote \<Rightarrow> session \<Rightarrow> tool_call \<Rightarrow> session \<times> (thrown + tool_result) option" where
  "callTool fuel js ig s call =
     (let (loggedIn, s1) = loginToInstagram ig s in
      if \<not> loggedIn
      then (s1, Some (Inl (Mcp InternalError ''Failed to authenticate with Instagram'')))
      else (case runTool fuel js ig call of
              None \<Rightarrow> (s1, None)
            | Some (Inr r) \<Rightarrow> (s1, Some (Inr r))
            | Some (Inl err) \<Rightarrow>
                (let (s2, mapped) = mapToolError s1 err in (s2, Some (Inl mapped)))))"

section \<open>Predicates for the statements\<close>

text \<open>An error thrown as \<open>McpError\<close>, and an account all of whose lookups succeed.\<close>

definition isMcp :: "thrown \<Rightarrow> bool" where
  "isMcp t = (case t of Mcp c m \<Rightarrow> True | Api e \<Rightarrow> False)"

definition lookupsSucceed :: "remote \<Rightarrow> string \<Rightarrow> bool" where
  "lookupsSucceed ig uname =
     (case ig_getIdByUsername ig uname of
        Inl e \<Rightarrow> False
      | Inr uid \<Rightarrow>
          (case ig_info ig uid of
             Inl e \<Rightarrow> False
           | Inr userInfo \<Rightarrow>
               (positive (follower_count userInfo) \<longrightarrow>
                  (case ig_userFeed ig uid 0 of Inl e \<Rightarrow> False | Inr p \<Rightarrow> True))))"

text \<open>The error of the first lookup of an account that fails, if one does.\<close>

definition lookupFailure :: "remote \<Rightarrow> string \<Rightarrow> api_error option" where
  "lookupFailure ig uname =
     (case ig_getIdByUsername ig uname of
        Inl e \<Rightarrow> Some e
      | Inr uid \<Rightarrow>
          (case ig_info ig uid of
             Inl e \<Rightarrow> Some e
           | Inr userInfo \<Rightarrow>
               if positive (follower_count userInfo)
               then (case ig_userFeed ig uid 0 of Inl e \<Rightarrow> Some e | Inr p \<Rightarrow> None)
               else None))"

text \<open>
  The date range as the specification words it. A date that is given is a non-empty
  string that the parser accepts; a post is within the dates when its timestamp is at
  least the time of \<open>startDate\<close> in seconds, if that is given, and at most the time of
  \<open>endDate\<close> in seconds plus 86399, if that is given. A date as \<open>YYYY-MM-DD\<close> is parsed as
  midnight UTC: its time is a whole number of days.
\<close>

definition parses :: "date_parser \<Rightarrow> string option \<Rightarrow> bool" where
  "parses getTime d = (case d of None \<Rightarrow> True | Some t \<Rightarrow> t \<noteq> [] \<and> getTime t \<noteq> None)"

definition midnightUTC :: "date_parser \<Rightarrow> string option \<Rightarrow> bool" where
  "midnightUTC getTime d =
     (case d of None \<Rightarrow> True
      | Some t \<Rightarrow> (case getTime t of None \<Rightarrow> True | Some ms \<Rightarrow> ms mod 86400000 = 0))"

definition withinDates :: "date_parser \<Rightarrow> string option \<Rightarrow> string option \<Rightarrow> post \<Rightarrow> bool" where
  "withinDates getTime sd ed p =
     ((case sd of None \<Rightarrow> True
       | Some t \<Rightarrow> (of_int (taken_at p) :: rat) \<ge> of_int (the (getTime t)) / 1000)
      \<and> (case ed of None \<Rightarrow> True
         | Some t \<Rightarrow> (of_int (taken_at p) :: rat) \<le> of_int (the (getTime t)) / 1000 + 86399))"


text \<open>
  Example data for the instances below. On strings of ASCII characters \<open>toLowerCase\<close>
  changes the letters A to Z only; the instances use such strings.
\<close>

definition lowerChar :: "char \<Rightarrow> char" where
  "lowerChar c = (if 65 \<le> (of_char c :: nat) \<and> (of_char c :: nat) \<le> 90
                  then char_of (of_char c + 32 :: nat) else c)"

definition asciiLower :: "string \<Rightarrow> string" where
  "asciiLower t = map lowerChar t"

definition sampleUser :: "int \<Rightarrow> ig_user" where
  "sampleUser p = \<lparr>pk = p, username = ''u'', full_name = ''U'', is_private = False,
     is_verified = False, follower_count = None, following_count = None, media_count = None,
     biography = None\<rparr>"

definition sampleComments :: "comment list" where
  "sampleComments =
     [\<lparr>user = sampleUser 123, comment_text = ''a''\<rparr>,
      \<lparr>user = sampleUser 7, comment_text = ''x''\<rparr>,
      \<lparr>user = sampleUser 123, comment_text = ''b''\<rparr>]"

definition noInfo :: user_info where
  "noInfo p = Inl (ApiError OtherError ''fetch failed'')"

definition demoCriteria :: criteria where
  "demoCriteria = \<lparr>minComments = Some 2, minFollowers = Some 100, keywords_opt = Some [''demo'']\<rparr>"

definition demoUser :: engaged_user where
  "demoUser = \<lparr>profile = (sampleUser 5)\<lparr>follower_count := Some 150, biography := Some ''hi''\<rparr>,
                comments = [''nice'', ''Demo product'', ''ok'']\<rparr>"

definition demoLead :: lead where
  "demoLead = \<lparr>lead_username = ''u'', userId = 5, fullName = ''U'', followerCount = Some 150,
                isPrivate = False,
                reasons = [''Followers: 150 (>=100)'', ''Comments: 3 (>=2)'', ''Keywords found: [demo]''],
                sampleComment = Some ''nice''\<rparr>"

definition samplePostUrl :: string where
  "samplePostUrl = ''https://www.instagram.com/p/Cabc_123/''"

definition samplePost :: "int \<Rightarrow> int \<Rightarrow> int \<Rightarrow> post" where
  "samplePost likes cs t =
     \<lparr>like_count = Some likes, comment_count = Some cs, taken_at = t, code = ''Cabc_123''\<rparr>"

definition epochParser :: date_parser where
  "epochParser d = (if d = ''1970-01-01'' then Some 0
                    else if d = ''1970-01-02'' then Some 86400000 else None)"

definition sampleRemote :: remote where
  "sampleRemote =
     \<lparr>ig_login = (\<lambda>n. None),
      ig_getByUrl = (\<lambda>url. Inr (Some (MediaInfo (Some ''987'')))),
      ig_mediaComments = (\<lambda>mediaId k. Inl (ApiError IgLoginRequiredError ''login_required'')),
      ig_likers = (\<lambda>mediaId. Inr None),
      ig_getIdByUsername =
        (\<lambda>uname. if uname = ''realuser'' then Inr 42 else Inl (ApiError IgNotFoundError ''User not found'')),
      ig_info = (\<lambda>uid. Inr ((sampleUser uid)\<lparr>follower_count := Some 1000\<rparr>)),
      ig_userFeed = (\<lambda>uid k. Inr (Page [samplePost 10 2 0, samplePost 21 4 0] False)),
      ig_accountFollowers = (\<lambda>uid k. Inr (Page [] False))\<rparr>"


definition loggedInSession :: session where
  "loggedInSession = \<lparr>isLoggedIn = True, loginCalls = 1\<rparr>"

definition compareArgs :: compare_args where
  "compareArgs = \<lparr>accounts = [''realuser'', ''doesnotexist123456'', ''__proto__''], metrics = None\<rparr>"

definition sampleBuiltins :: builtins where
  "sampleBuiltins = \<lparr>dateGetTime = epochParser, toLowerCase = asciiLower\<rparr>"

definition demoInfo :: user_info where
  "demoInfo p = Inr ((sampleUser p)\<lparr>follower_count := Some 150, biography := Some ''hi''\<rparr>)"

definition bareUser :: engaged_user where
  "bareUser = \<lparr>profile = sampleUser 5, comments = [''nice'', ''Demo product'', ''ok'']\<rparr>"

section \<open>Properties of the pagination loops\<close>

lemma fetchPages_Inr:
  assumes "fetchPages fuel feed target k acc count = Some (n, Inr xs)"
    and "count = int (length acc)"
  shows "k < n \<and> xs = acc @ concat (map (pageItems feed) [k..<n])
         \<and> (int (length xs) \<ge> target \<or> (\<exists>p. feed (n - 1) = Inr p \<and> \<not> moreAvailable p))
         \<and> (n = Suc k \<or> int (length xs) - int (length (pageItems feed (n - 1))) < target)"
  using assms
proof (induction fuel arbitrary: k acc count)
  case 0
  then show ?case by simp
next
  case (Suc fuel)
  show ?case
  proof (cases "feed k")
    case (Inl e)
    with Suc.prems show ?thesis by simp
  next
    case (Inr p)
    let ?acc = "acc @ items p"
    let ?count = "count + int (length (items p))"
    have cnt: "?count = int (length ?acc)" using Suc.prems(2) by simp
    have pk: "pageItems feed k = items p" using Inr by (simp add: pageItems_def)
    show ?thesis
    proof (cases "?count \<ge> target \<or> \<not> moreAvailable p")
      case True
      with Suc.prems(1) Inr have "n = Suc k" "xs = ?acc"
        by (auto simp: Let_def split: if_splits)
      with True Inr pk cnt show ?thesis by auto
    next
      case False
      with Suc.prems(1) Inr
      have rec: "fetchPages fuel feed target (Suc k) ?acc ?count = Some (n, Inr xs)"
        by (auto simp: Let_def split: if_splits)
      from Suc.IH [OF rec cnt]
      have lt: "Suc k < n"
        and xs: "xs = ?acc @ concat (map (pageItems feed) [Suc k..<n])"
        and stop: "int (length xs) \<ge> target \<or> (\<exists>p. feed (n - 1) = Inr p \<and> \<not> moreAvailable p)"
        and prev: "n = Suc (Suc k) \<or> int (length xs) - int (length (pageItems feed (n - 1))) < target"
        by auto
      have upt: "[k..<n] = k # [Suc k..<n]" using lt by (simp add: upt_conv_Cons)
      have xs': "xs = acc @ concat (map (pageItems feed) [k..<n])"
        using xs pk upt by simp
      have "int (length xs) - int (length (pageItems feed (n - 1))) < target"
      proof (cases "n = Suc (Suc k)")
        case True
        then have "xs = ?acc @ pageItems feed (Suc k)" using xs by simp
        with True False cnt show ?thesis by simp
      next
        case False
        with prev show ?thesis by simp
      qed
      with lt xs' stop show ?thesis by auto
    qed
  qed
qed

lemma delivered_Suc: "delivered feed (Suc n) = delivered feed n @ pageItems feed n"
  by (simp add: delivered_def)

lemma fetchPages_nonpositive:
  "count \<ge> 0 \<Longrightarrow> target \<le> 0 \<Longrightarrow>
   fetchPages (Suc fuel) feed target k acc count =
     (case feed k of Inl e \<Rightarrow> Some (Suc k, Inl e) | Inr p \<Rightarrow> Some (Suc k, Inr (acc @ items p)))"
  by (simp add: Let_def split: sum.splits)

text \<open>
  C1 (as stated, refuted). With \<open>targetCount = 0\<close> the accumulation has requested one page
  when it returns, not none; with \<open>targetCount = -1\<close> it has also requested one page and
  returns the page without its last item, not the empty sequence.
\<close>

theorem C1_counterexample:
  "accumulate 1 (\<lambda>k. Inr (Page [10, 20, 30 :: nat] True)) 0 = Some (1, Inr [])
   \<and> accumulate 1 (\<lambda>k. Inr (Page [10, 20, 30 :: nat] True)) 0 \<noteq> Some (0, Inr [])
   \<and> accumulate 1 (\<lambda>k. Inr (Page [10, 20, 30 :: nat] True)) (-1) = Some (1, Inr [10, 20])"
  by (simp add: accumulate_def slice0_def)

text \<open>
  C1 (amended). For every \<open>targetCount \<le> 0\<close> the accumulation requests exactly one page and
  stops there, whatever the source says about further pages: it fails with the error of
  that request, or returns \<open>slice(0, targetCount)\<close> of that one page, which is the empty
  sequence when \<open>targetCount = 0\<close>.
\<close>

theorem C1_nonpositive_target_one_page:
  assumes "targetCount \<le> 0"
  shows "accumulate (Suc fuel) feed targetCount =
           (case feed 0 of
              Inl e \<Rightarrow> Some (1, Inl e)
            | Inr p \<Rightarrow> Some (1, Inr (slice0 (items p) targetCount)))
         \<and> (targetCount = 0 \<longrightarrow> (\<forall>p. feed 0 = Inr p \<longrightarrow>
              accumulate (Suc fuel) feed targetCount = Some (1, Inr [])))"
  using assms by (simp add: accumulate_def fetchPages_nonpositive slice0_def split: sum.splits)

theorem C1_nonpositive_target_one_page_witness:
  "(0::int) \<le> 0
   \<and> accumulate (Suc 0) (\<lambda>k. Inr (Page [10, 20, 30 :: nat] True)) 0 = Some (1, Inr [])"
  using C1_nonpositive_target_one_page [of 0 0 "\<lambda>k. Inr (Page [10, 20, 30 :: nat] True)"]
  by (simp add: slice0_def)

text \<open>
  C2 (as stated, refuted). On a feed whose pages hold 150 posts each, the post fetch of the
  engagement report returns 300 posts: the overshoot of the last page is kept, above the
  cap of 200.
\<close>

theorem C2_counterexample:
  "fetchReportPosts 2 (\<lambda>k. Inr (Page (replicate 150 (7::nat)) True))
     = Some (2, Inr (replicate 150 7 @ replicate 150 7))
   \<and> int (length (replicate 150 (7::nat) @ replicate 150 7)) > maxPostsToFetch"
  by (simp add: fetchReportPosts_def maxPostsToFetch_def numeral_2_eq_2 Let_def)

lemma fetchPages_total:
  assumes "acc = delivered feed k" and "count = int (length acc)" and "k \<le> m"
    and "stopsAt feed target m" and "\<forall>j. k \<le> j \<and> j < m \<longrightarrow> \<not> stopsAt feed target j"
    and "m - k < fuel"
  shows "fetchPages fuel feed target k acc count =
           Some (Suc m, case feed m of Inl e \<Rightarrow> Inl e | Inr p \<Rightarrow> Inr (delivered feed (Suc m)))"
  using assms
proof (induction fuel arbitrary: k acc count)
  case 0
  then show ?case by simp
next
  case (Suc fuel)
  show ?case
  proof (cases "k = m")
    case True
    show ?thesis
    proof (cases "feed m")
      case (Inl e)
      with True show ?thesis by simp
    next
      case (Inr p)
      have d: "delivered feed (Suc m) = acc @ items p"
        using Suc.prems(1) True Inr by (simp add: delivered_Suc pageItems_def)
      from Suc.prems(4) Inr have "int (length (delivered feed (Suc m))) \<ge> target \<or> \<not> moreAvailable p"
        by (simp add: stopsAt_def)
      with d Suc.prems(2) True Inr show ?thesis by (auto simp: Let_def)
    qed
  next
    case False
    with Suc.prems(3) have lt: "k < m" by simp
    with Suc.prems(5) have ns: "\<not> stopsAt feed target k" by simp
    then obtain p where p: "feed k = Inr p" and mo: "moreAvailable p"
      and c: "int (length (delivered feed (Suc k))) < target"
      by (cases "feed k") (auto simp: stopsAt_def)
    have d: "delivered feed (Suc k) = acc @ items p"
      using Suc.prems(1) p by (simp add: delivered_Suc pageItems_def)
    have cnt: "count + int (length (items p)) = int (length (acc @ items p))"
      using Suc.prems(2) by simp
    have rec: "fetchPages fuel feed target (Suc k) (acc @ items p) (count + int (length (items p)))
        = Some (Suc m, case feed m of Inl e \<Rightarrow> Inl e | Inr p \<Rightarrow> Inr (delivered feed (Suc m)))"
    proof (rule Suc.IH)
      show "acc @ items p = delivered feed (Suc k)" using d by simp
      show "count + int (length (items p)) = int (length (acc @ items p))" by (rule cnt)
      show "Suc k \<le> m" using lt by simp
      show "stopsAt feed target m" by (rule Suc.prems(4))
      show "\<forall>j. Suc k \<le> j \<and> j < m \<longrightarrow> \<not> stopsAt feed target j" using Suc.prems(5) by simp
      show "m - Suc k < fuel" using Suc.prems(6) lt by simp
    qed
    from c d cnt have "count + int (length (items p)) < target" by simp
    with p mo rec show ?thesis by (simp add: Let_def)
  qed
qed

lemma fetchPages_out_of_fuel:
  assumes "acc = delivered feed k" and "count = int (length acc)"
    and "\<forall>j. k \<le> j \<and> j < k + fuel \<longrightarrow> \<not> stopsAt feed target j"
  shows "fetchPages fuel feed target k acc count = None"
  using assms
proof (induction fuel arbitrary: k acc count)
  case 0
  then show ?case by simp
next
  case (Suc fuel)
  from Suc.prems(3) have ns: "\<not> stopsAt feed target k" by simp
  then obtain p where p: "feed k = Inr p" and mo: "moreAvailable p"
    and c: "int (length (delivered feed (Suc k))) < target"
    by (cases "feed k") (auto simp: stopsAt_def)
  have d: "delivered feed (Suc k) = acc @ items p"
    using Suc.prems(1) p by (simp add: delivered_Suc pageItems_def)
  have cnt: "count + int (length (items p)) = int (length (acc @ items p))"
    using Suc.prems(2) by simp
  have rec: "fetchPages fuel feed target (Suc k) (acc @ items p) (count + int (length (items p))) = None"
  proof (rule Suc.IH)
    show "acc @ items p = delivered feed (Suc k)" using d by simp
    show "count + int (length (items p)) = int (length (acc @ items p))" by (rule cnt)
    show "\<forall>j. Suc k \<le> j \<and> j < Suc k + fuel \<longrightarrow> \<not> stopsAt feed target j"
      using Suc.prems(3) by simp
  qed
  from c d cnt have "count + int (length (items p)) < target" by simp
  with p mo rec show ?case by (simp add: Let_def)
qed

lemma fetchPages_from_start:
  assumes "stopsAt feed target k" and "\<forall>j<k. \<not> stopsAt feed target j" and "k < fuel"
  shows "fetchPages fuel feed target 0 [] 0 =
           Some (Suc k, case feed k of Inl e \<Rightarrow> Inl e | Inr p \<Rightarrow> Inr (delivered feed (Suc k)))"
  using assms by (intro fetchPages_total) (simp_all add: delivered_def)

lemma fetchPages_never_stopping:
  assumes "\<forall>j<fuel. \<not> stopsAt feed target j"
  shows "fetchPages fuel feed target 0 [] 0 = None"
  using assms by (intro fetchPages_out_of_fuel) (simp_all add: delivered_def)

text \<open>
  C2 (amended). Take \<open>targetCount > 0\<close>, and let request \<open>k\<close> be the first that throws, or
  with whose page at least \<open>targetCount\<close> items are accumulated, or whose page reports no
  further page. Then the accumulation (comments of a post, followers of an account) makes
  exactly the requests \<open>0 .. k\<close> and returns: it fails with the error of request \<open>k\<close>, or
  returns the first \<open>targetCount\<close> items of what these pages delivered, never more than
  \<open>targetCount\<close>, exactly \<open>targetCount\<close> when that many were delivered, and fewer only when
  the source reported no further page. While no request is such a first one the loop goes
  on. The post fetch of the engagement report runs the same loop against the cap of 200
  posts and returns every post of the pages it requested, untruncated: fewer than 200
  before its last page, and possibly more than 200 with it.
\<close>

theorem C2_truncation:
  assumes "targetCount > 0"
  shows "(stopsAt feed targetCount k \<and> (\<forall>j<k. \<not> stopsAt feed targetCount j) \<and> k < fuel \<longrightarrow>
            accumulate fuel feed targetCount =
              Some (Suc k, case feed k of
                             Inl e \<Rightarrow> Inl e
                           | Inr p \<Rightarrow> Inr (take (nat targetCount) (delivered feed (Suc k)))))
         \<and> ((\<forall>j<fuel. \<not> stopsAt feed targetCount j) \<longrightarrow> accumulate fuel feed targetCount = None)
         \<and> (accumulate fuel feed targetCount = Some (n, Inr xs) \<longrightarrow>
            int (length xs) \<le> targetCount
            \<and> xs = take (nat targetCount) (delivered feed n)
            \<and> (int (length (delivered feed n)) \<ge> targetCount \<longrightarrow> int (length xs) = targetCount)
            \<and> (int (length (delivered feed n)) < targetCount \<longrightarrow>
                 xs = delivered feed n \<and> (\<exists>p. feed (n - 1) = Inr p \<and> \<not> moreAvailable p)))
         \<and> (stopsAt feed maxPostsToFetch k \<and> (\<forall>j<k. \<not> stopsAt feed maxPostsToFetch j) \<and> k < fuel \<longrightarrow>
            fetchReportPosts fuel feed =
              Some (Suc k, case feed k of Inl e \<Rightarrow> Inl e | Inr p \<Rightarrow> Inr (delivered feed (Suc k))))
         \<and> ((\<forall>j<fuel. \<not> stopsAt feed maxPostsToFetch j) \<longrightarrow> fetchReportPosts fuel feed = None)
         \<and> (fetchReportPosts fuel feed = Some (n, Inr ys) \<longrightarrow>
            ys = delivered feed n
            \<and> int (length (delivered feed (n - 1))) < maxPostsToFetch
            \<and> (int (length ys) \<ge> maxPostsToFetch \<or> (\<exists>p. feed (n - 1) = Inr p \<and> \<not> moreAvailable p)))"
proof (intro conjI impI)
  assume s: "stopsAt feed targetCount k \<and> (\<forall>j<k. \<not> stopsAt feed targetCount j) \<and> k < fuel"
  then have "fetchPages fuel feed targetCount 0 [] 0 =
           Some (Suc k, case feed k of Inl e \<Rightarrow> Inl e | Inr p \<Rightarrow> Inr (delivered feed (Suc k)))"
    by (intro fetchPages_from_start) simp_all
  then show "accumulate fuel feed targetCount =
              Some (Suc k, case feed k of
                             Inl e \<Rightarrow> Inl e
                           | Inr p \<Rightarrow> Inr (take (nat targetCount) (delivered feed (Suc k))))"
    using assms by (simp add: accumulate_def slice0_def split: sum.splits)
next
  assume "\<forall>j<fuel. \<not> stopsAt feed targetCount j"
  then have "fetchPages fuel feed targetCount 0 [] 0 = None" by (rule fetchPages_never_stopping)
  then show "accumulate fuel feed targetCount = None" by (simp add: accumulate_def)
next
  assume s: "stopsAt feed maxPostsToFetch k \<and> (\<forall>j<k. \<not> stopsAt feed maxPostsToFetch j) \<and> k < fuel"
  then show "fetchReportPosts fuel feed =
              Some (Suc k, case feed k of Inl e \<Rightarrow> Inl e | Inr p \<Rightarrow> Inr (delivered feed (Suc k)))"
    unfolding fetchReportPosts_def by (intro fetchPages_from_start) simp_all
next
  assume "\<forall>j<fuel. \<not> stopsAt feed maxPostsToFetch j"
  then show "fetchReportPosts fuel feed = None"
    unfolding fetchReportPosts_def by (rule fetchPages_never_stopping)
next
  assume a: "accumulate fuel feed targetCount = Some (n, Inr xs)"
  then obtain acc where f: "fetchPages fuel feed targetCount 0 [] 0 = Some (n, Inr acc)"
    and xs: "xs = slice0 acc targetCount"
    by (auto simp: accumulate_def split: option.splits sum.splits)
  from fetchPages_Inr [OF f] have acc: "acc = delivered feed n"
    and stop: "int (length acc) \<ge> targetCount \<or> (\<exists>p. feed (n - 1) = Inr p \<and> \<not> moreAvailable p)"
    by (auto simp: delivered_def)
  from xs assms show "xs = take (nat targetCount) (delivered feed n)"
    by (simp add: slice0_def acc)
  then show "int (length xs) \<le> targetCount" using assms by simp
  show "int (length xs) = targetCount" if "int (length (delivered feed n)) \<ge> targetCount"
    using that xs assms acc by (simp add: slice0_def)
  show "xs = delivered feed n" if "int (length (delivered feed n)) < targetCount"
    using that xs assms acc by (simp add: slice0_def)
  show "\<exists>p. feed (n - 1) = Inr p \<and> \<not> moreAvailable p" if "int (length (delivered feed n)) < targetCount"
    using that stop acc by auto
next
  assume r: "fetchReportPosts fuel feed = Some (n, Inr ys)"
  then have f: "fetchPages fuel feed maxPostsToFetch 0 [] 0 = Some (n, Inr ys)"
    by (simp add: fetchReportPosts_def)
  from fetchPages_Inr [OF f] have n: "0 < n" and ys: "ys = delivered feed n"
    and stop: "int (length ys) \<ge> maxPostsToFetch \<or> (\<exists>p. feed (n - 1) = Inr p \<and> \<not> moreAvailable p)"
    and prev: "n = Suc 0 \<or> int (length ys) - int (length (pageItems feed (n - 1))) < maxPostsToFetch"
    by (auto simp: delivered_def)
  show "ys = delivered feed n" by (rule ys)
  show "int (length ys) \<ge> maxPostsToFetch \<or> (\<exists>p. feed (n - 1) = Inr p \<and> \<not> moreAvailable p)" by (rule stop)
  from n obtain m where m: "n = Suc m" by (cases n) auto
  show "int (length (delivered feed (n - 1))) < maxPostsToFetch"
  proof (cases "m = 0")
    case True
    then show ?thesis using m by (simp add: delivered_def maxPostsToFetch_def)
  next
    case False
    with prev m have "int (length ys) - int (length (pageItems feed m)) < maxPostsToFetch" by simp
    then show ?thesis using ys m by (simp add: delivered_Suc)
  qed
qed

text \<open>
  The instance: pages of three items. With the target 5 the second request is the first
  at which the loop stops, and for any fuel above 1 (here 7) two requests are made and
  five items returned. On a source that reports no further page after its second page
  the posts of the report are the six items of both pages.
\<close>

theorem C2_truncation_witness:
  "(5::int) > 0
   \<and> \<not> stopsAt (\<lambda>k. Inr (Page [k, k + 10, k + 20] True)) 5 0
   \<and> stopsAt (\<lambda>k. Inr (Page [k, k + 10, k + 20] True)) 5 1
   \<and> accumulate 7 (\<lambda>k. Inr (Page [k, k + 10, k + 20] True)) 5 = Some (2, Inr [0, 10, 20, 1, 11])
   \<and> int (length [0, 10, 20, 1, 11 :: nat]) \<le> 5
   \<and> \<not> stopsAt (\<lambda>k. Inr (Page [k, k + 10, k + 20] (k < 1))) maxPostsToFetch 0
   \<and> stopsAt (\<lambda>k. Inr (Page [k, k + 10, k + 20] (k < 1))) maxPostsToFetch 1
   \<and> fetchReportPosts 7 (\<lambda>k. Inr (Page [k, k + 10, k + 20] (k < 1))) = Some (2, Inr [0, 10, 20, 1, 11, 21])"
proof -
  let ?f = "\<lambda>k::nat. Inr (Page [k, k + 10, k + 20] True) :: api_error + nat page"
  let ?g = "\<lambda>k::nat. Inr (Page [k, k + 10, k + 20] (k < 1)) :: api_error + nat page"
  have p: "(5::int) > 0" by simp
  have d1: "delivered ?f (Suc 0) = [0, 10, 20]" "delivered ?g (Suc 0) = [0, 10, 20]"
    by (simp_all add: delivered_def pageItems_def)
  have d2: "delivered ?f (Suc (Suc 0)) = [0, 10, 20, 1, 11, 21]"
    "delivered ?g (Suc (Suc 0)) = [0, 10, 20, 1, 11, 21]"
    by (simp_all add: delivered_def pageItems_def)
  have f0: "\<not> stopsAt ?f 5 0" and f1: "stopsAt ?f 5 1"
    using d1 d2 by (simp_all add: stopsAt_def)
  have g0: "\<not> stopsAt ?g maxPostsToFetch 0" and g1: "stopsAt ?g maxPostsToFetch 1"
    using d1 d2 by (simp_all add: stopsAt_def maxPostsToFetch_def)
  have fa: "\<forall>j<1. \<not> stopsAt ?f 5 j" using f0 by simp
  have ga: "\<forall>j<1. \<not> stopsAt ?g maxPostsToFetch j" using g0 by simp
  have e2: "delivered ?f (Suc 1) = [0, 10, 20, 1, 11, 21]"
    "delivered ?g (Suc 1) = [0, 10, 20, 1, 11, 21]"
    using d2 by simp_all
  note t = C2_truncation [OF p, where fuel = 7 and k = 1]
  have ha: "stopsAt ?f 5 1 \<and> (\<forall>j<1. \<not> stopsAt ?f 5 j) \<and> (1::nat) < 7"
    using f1 fa by (intro conjI) simp_all
  have hg: "stopsAt ?g maxPostsToFetch 1 \<and> (\<forall>j<1. \<not> stopsAt ?g maxPostsToFetch j) \<and> (1::nat) < 7"
    using g1 ga by (intro conjI) simp_all
  have a: "accumulate 7 ?f 5 = Some (Suc 1, case ?f 1 of Inl e \<Rightarrow> Inl e
              | Inr p \<Rightarrow> Inr (take (nat 5) (delivered ?f (Suc 1))))"
    by (rule mp [OF t [where feed = ?f, THEN conjunct1] ha])
  have a': "accumulate 7 ?f 5 = Some (2, Inr [0, 10, 20, 1, 11])"
    unfolding a e2 by simp
  have l: "int (length [0, 10, 20, 1, 11 :: nat]) \<le> 5"
    using C2_truncation [OF p, where fuel = 7 and feed = ?f and n = 2 and xs = "[0, 10, 20, 1, 11]",
        THEN conjunct2, THEN conjunct2, THEN conjunct1] a'
    by blast
  have r: "fetchReportPosts 7 ?g = Some (Suc 1, case ?g 1 of Inl e \<Rightarrow> Inl e
              | Inr p \<Rightarrow> Inr (delivered ?g (Suc 1)))"
    by (rule mp [OF t [where feed = ?g, THEN conjunct2, THEN conjunct2, THEN conjunct2,
            THEN conjunct1] hg])
  have r': "fetchReportPosts 7 ?g = Some (2, Inr [0, 10, 20, 1, 11, 21])"
    unfolding r e2 by simp
  from p f0 f1 a' l g0 g1 r' show ?thesis by (intro conjI)
qed

section \<open>Properties of the user map\<close>

lemma firstSeen_snoc:
  "firstSeen (ks @ [k]) = (if k \<in> set ks then firstSeen ks else firstSeen ks @ [k])"
  by (simp add: firstSeen_def)

lemma set_firstSeen: "set (firstSeen ks) = set ks"
  by (simp add: firstSeen_def)

lemma distinct_firstSeen: "distinct (firstSeen ks)"
  by (simp add: firstSeen_def)

lemma mapSet_new: "k \<notin> set (map fst m) \<Longrightarrow> mapSet k v m = m @ [(k, v)]"
  by (induction m) auto

lemma keys_mapChange: "map fst (mapChange k f m) = map fst m"
  by (induction m) auto

lemma mapChange_absent: "k \<notin> set (map fst m) \<Longrightarrow> mapChange k f m = m"
  by (induction m) auto

lemma map_of_mapChange:
  "map_of (mapChange k f m) k' = (if k' = k then map_option f (map_of m k) else map_of m k')"
  by (induction m) auto

lemma keys_addCommenter:
  "map fst (addCommenter m c) =
     (if commentKey c \<in> set (map fst m) then map fst m else map fst m @ [commentKey c])"
  by (simp add: addCommenter_def commentKey_def mapHas_def Let_def mapSet_new keys_mapChange)

lemma keys_usersOfComments: "map fst (usersOfComments cs) = firstSeen (map commentKey cs)"
proof (induction cs rule: rev_induct)
  case Nil
  show ?case by (simp add: usersOfComments_def firstSeen_def)
next
  case (snoc c cs)
  have "usersOfComments (cs @ [c]) = addCommenter (usersOfComments cs) c"
    by (simp add: usersOfComments_def)
  then show ?case
    using snoc by (simp add: keys_addCommenter firstSeen_snoc set_firstSeen del: map_map)
qed

lemma keys_addFollower:
  "map fst (addFollower m f) =
     (if String_of (pk f) \<in> set (map fst m) then map fst m else map fst m @ [String_of (pk f)])"
  by (simp add: addFollower_def mapHas_def Let_def mapSet_new)

lemma keys_usersOfFollowers:
  "map fst (usersOfFollowers fs) = firstSeen (map (\<lambda>f. String_of (pk f)) fs)"
proof (induction fs rule: rev_induct)
  case Nil
  show ?case by (simp add: usersOfFollowers_def firstSeen_def)
next
  case (snoc f fs)
  have "usersOfFollowers (fs @ [f]) = addFollower (usersOfFollowers fs) f"
    by (simp add: usersOfFollowers_def)
  then show ?case
    using snoc by (simp add: keys_addFollower firstSeen_snoc set_firstSeen del: map_map)
qed

lemma lookup_addCommenter:
  "map_of (addCommenter m c) k =
     (if k = commentKey c
      then (case map_of m k of
              None \<Rightarrow> Some \<lparr>profile = user c, comments = [comment_text c]\<rparr>
            | Some u \<Rightarrow> Some (u\<lparr>comments := comments u @ [comment_text c]\<rparr>))
      else map_of m k)"
proof (cases "commentKey c \<in> set (map fst m)")
  case True
  then obtain u where "map_of m (commentKey c) = Some u"
    by (metis domD dom_map_of_conv_image_fst list.set_map)
  with True show ?thesis
    by (simp add: addCommenter_def commentKey_def mapHas_def Let_def map_of_mapChange)
next
  case False
  then have "map_of m (commentKey c) = None"
    by (simp add: map_of_eq_None_iff)
  with False show ?thesis
    by (auto simp: addCommenter_def commentKey_def mapHas_def Let_def mapSet_new map_add_def
        split: option.splits)
qed

lemma lookup_usersOfComments:
  "map_of (usersOfComments cs) k =
     (case filter (\<lambda>c. commentKey c = k) cs of
        [] \<Rightarrow> None
      | c # rest \<Rightarrow> Some \<lparr>profile = user c, comments = map comment_text (c # rest)\<rparr>)"
proof (induction cs rule: rev_induct)
  case Nil
  show ?case by (simp add: usersOfComments_def)
next
  case (snoc c cs)
  have step: "usersOfComments (cs @ [c]) = addCommenter (usersOfComments cs) c"
    by (simp add: usersOfComments_def)
  show ?case
    unfolding step lookup_addCommenter using snoc
    by (auto split: list.splits)
qed

lemma keyed_usersOfComments: "keyed (usersOfComments cs)"
proof -
  have "k = String_of (pk (profile u))" if "(k, u) \<in> set (usersOfComments cs)" for k u
  proof -
    have d: "distinct (map fst (usersOfComments cs))"
      by (simp add: keys_usersOfComments distinct_firstSeen)
    from that d have "map_of (usersOfComments cs) k = Some u" by simp
    then show ?thesis
      by (auto simp: lookup_usersOfComments commentKey_def split: list.splits
          dest!: filter_eq_ConsD)
  qed
  then show ?thesis by (auto simp: keyed_def list_all_iff)
qed

lemma keyed_distinct_pks:
  assumes "keyed m" and "distinct (map fst m)"
  shows "distinct (map (\<lambda>e. pk (profile (snd e))) m)"
proof -
  have "map fst m = map String_of (map (\<lambda>e. pk (profile (snd e))) m)"
    using assms(1) by (induction m) (auto simp: keyed_def)
  with assms(2) show ?thesis by (metis distinct_map)
qed

lemma valOf_digitsOf: "valOf (digitsOf n) = n"
proof (induction n rule: digitsOf.induct)
  case (1 n)
  show ?case
  proof (cases "n < 10")
    case True
    then have "digitsOf n = [char_of (48 + n)]" by (subst digitsOf.simps) simp
    with True show ?thesis by (simp add: valOf_def)
  next
    case False
    have "digitsOf n = digitsOf (n div 10) @ [char_of (48 + n mod 10)]"
      using False by (subst digitsOf.simps) simp
    moreover have "(48 + n mod 10) mod 256 = 48 + n mod 10"
      by simp
    ultimately have "valOf (digitsOf n) = 10 * valOf (digitsOf (n div 10)) + n mod 10"
      by (simp add: valOf_def)
    with 1 False show ?thesis by simp
  qed
qed

lemma digitsOf_no_minus: "digitsOf n \<noteq> [] \<and> hd (digitsOf n) \<noteq> CHR ''-''"
proof (induction n rule: digitsOf.induct)
  case (1 n)
  show ?case
  proof (cases "n < 10")
    case True
    have v: "of_char (char_of (48 + n)) = 48 + n" using True by simp
    have "char_of (48 + n) \<noteq> CHR ''-''"
    proof
      assume "char_of (48 + n) = CHR ''-''"
      then have "of_char (char_of (48 + n)) = (of_char (CHR ''-'') :: nat)" by simp
      with v show False by simp
    qed
    moreover have "digitsOf n = [char_of (48 + n)]" using True by (subst digitsOf.simps) simp
    ultimately show ?thesis by simp
  next
    case False
    have "digitsOf n = digitsOf (n div 10) @ [char_of (48 + n mod 10)]"
      using False by (subst digitsOf.simps) simp
    with 1 False show ?thesis by simp
  qed
qed

lemma inj_String_of: "String_of i = String_of j \<Longrightarrow> i = j"
proof -
  assume eq: "String_of i = String_of j"
  have neg: "CHR ''-'' # digitsOf a \<noteq> digitsOf b" for a b
    using digitsOf_no_minus [of b] by (cases "digitsOf b") auto
  have dig: "digitsOf a = digitsOf b \<Longrightarrow> a = b" for a b
    by (metis valOf_digitsOf)
  show "i = j"
  proof (cases "i < 0")
    case True
    show ?thesis
    proof (cases "j < 0")
      case True
      with \<open>i < 0\<close> eq have "nat (- i) = nat (- j)" by (auto simp: String_of_def dest: dig)
      with True \<open>i < 0\<close> show ?thesis by simp
    next
      case False
      with True eq neg show ?thesis by (simp add: String_of_def)
    qed
  next
    case False
    show ?thesis
    proof (cases "j < 0")
      case True
      with False eq neg [of "nat (- j)" "nat i"] show ?thesis by (simp add: String_of_def)
    next
      case jn: False
      with False eq have "nat i = nat j" by (auto simp: String_of_def dest: dig)
      with False jn show ?thesis by simp
    qed
  qed
qed

lemma firstSeen_map_inj:
  assumes "\<And>a b. f a = f b \<Longrightarrow> a = b"
  shows "firstSeen (map f ks) = map f (firstSeen ks)"
proof (induction ks rule: rev_induct)
  case Nil
  show ?case by (simp add: firstSeen_def)
next
  case (snoc k ks)
  have "f k \<in> f ` set ks \<longleftrightarrow> k \<in> set ks" using assms by auto
  with snoc show ?case by (simp add: firstSeen_snoc)
qed

lemma pks_of_keyed:
  assumes "keyed m" and "map fst m = firstSeen (map String_of ps)"
  shows "map entryPk m = firstSeen ps"
proof -
  have "map fst m = map String_of (map entryPk m)"
    using assms(1) by (induction m) (auto simp: keyed_def entryPk_def)
  with assms(2) have "map String_of (map entryPk m) = map String_of (firstSeen ps)"
    by (simp add: firstSeen_map_inj inj_String_of)
  moreover have "inj String_of" by (auto simp: inj_on_def dest: inj_String_of)
  ultimately show ?thesis by (metis inj_map_eq_map)
qed

lemma keyed_usersOfFollowers: "keyed (usersOfFollowers fs)"
proof (induction fs rule: rev_induct)
  case Nil
  show ?case by (simp add: usersOfFollowers_def keyed_def)
next
  case (snoc f fs)
  have "usersOfFollowers (fs @ [f]) = addFollower (usersOfFollowers fs) f"
    by (simp add: usersOfFollowers_def)
  with snoc show ?case
    by (simp add: addFollower_def mapHas_def Let_def mapSet_new keyed_def)
qed

text \<open>
  C3. Two comments of the same \<open>pk\<close> with texts \<open>a\<close> and \<open>b\<close> give one user record, holding
  the comments \<open>[a, b]\<close>. For every sequence of comments (and for every sequence of
  followers) the keys of the user map are distinct, so are the \<open>pk\<close> values of its
  records, the records stand in the order in which their \<open>pk\<close> was first met, and each
  record holds the texts of all the comments of its key in the order met.
\<close>

theorem C3_dedup_by_pk:
  "(pk ua = pk ub \<longrightarrow>
      usersOfComments [\<lparr>user = ua, comment_text = a\<rparr>, \<lparr>user = ub, comment_text = b\<rparr>]
        = [(String_of (pk ua), \<lparr>profile = ua, comments = [a, b]\<rparr>)])
   \<and> distinct (map fst (usersOfComments cs))
   \<and> distinct (map entryPk (usersOfComments cs))
   \<and> map entryPk (usersOfComments cs) = firstSeen (map commentPk cs)
   \<and> (\<forall>(k, u) \<in> set (usersOfComments cs).
        comments u = map comment_text (filter (\<lambda>c. commentKey c = k) cs))
   \<and> distinct (map fst (usersOfFollowers fs))
   \<and> distinct (map entryPk (usersOfFollowers fs))
   \<and> map entryPk (usersOfFollowers fs) = firstSeen (map pk fs)"
proof (intro conjI)
  show "pk ua = pk ub \<longrightarrow>
      usersOfComments [\<lparr>user = ua, comment_text = a\<rparr>, \<lparr>user = ub, comment_text = b\<rparr>]
        = [(String_of (pk ua), \<lparr>profile = ua, comments = [a, b]\<rparr>)]"
    by (simp add: usersOfComments_def addCommenter_def mapHas_def Let_def)
  show dc: "distinct (map fst (usersOfComments cs))"
    by (simp add: keys_usersOfComments distinct_firstSeen)
  have "commentKey = String_of \<circ> commentPk"
    by (simp add: fun_eq_iff commentKey_def commentPk_def)
  then have kc: "map fst (usersOfComments cs) = firstSeen (map String_of (map commentPk cs))"
    by (simp add: keys_usersOfComments)
  show pc: "map entryPk (usersOfComments cs) = firstSeen (map commentPk cs)"
    by (rule pks_of_keyed [OF keyed_usersOfComments kc])
  show "distinct (map entryPk (usersOfComments cs))"
    by (simp add: pc distinct_firstSeen)
  show "\<forall>(k, u) \<in> set (usersOfComments cs).
        comments u = map comment_text (filter (\<lambda>c. commentKey c = k) cs)"
  proof (clarify)
    fix k u assume "(k, u) \<in> set (usersOfComments cs)"
    with dc have "map_of (usersOfComments cs) k = Some u" by simp
    then show "comments u = map comment_text (filter (\<lambda>c. commentKey c = k) cs)"
      by (auto simp: lookup_usersOfComments split: list.splits)
  qed
  show "distinct (map fst (usersOfFollowers fs))"
    by (simp add: keys_usersOfFollowers distinct_firstSeen)
  have kf: "map fst (usersOfFollowers fs) = firstSeen (map String_of (map pk fs))"
    by (simp add: keys_usersOfFollowers comp_def)
  show pf: "map entryPk (usersOfFollowers fs) = firstSeen (map pk fs)"
    by (rule pks_of_keyed [OF keyed_usersOfFollowers kf])
  show "distinct (map entryPk (usersOfFollowers fs))"
    by (simp add: pf distinct_firstSeen)
qed

lemma String_of_samples: "String_of 123 = ''123''" "String_of 7 = ''7''"
  by code_simp+

lemma usersOfComments_sample:
  "usersOfComments sampleComments =
     [(''123'', \<lparr>profile = sampleUser 123, comments = [''a'', ''b'']\<rparr>),
      (''7'', \<lparr>profile = sampleUser 7, comments = [''x'']\<rparr>)]"
  by (simp add: usersOfComments_def sampleComments_def addCommenter_def mapHas_def Let_def
      sampleUser_def String_of_samples)

theorem C3_dedup_by_pk_witness:
  "pk (sampleUser 123) = pk (sampleUser 123)
   \<and> usersOfComments [\<lparr>user = sampleUser 123, comment_text = ''a''\<rparr>,
                      \<lparr>user = sampleUser 123, comment_text = ''b''\<rparr>]
       = [(''123'', \<lparr>profile = sampleUser 123, comments = [''a'', ''b'']\<rparr>)]
   \<and> (''123'', \<lparr>profile = sampleUser 123, comments = [''a'', ''b'']\<rparr>)
       \<in> set (usersOfComments sampleComments)
   \<and> [''a'', ''b''] = map comment_text (filter (\<lambda>c. commentKey c = ''123'') sampleComments)
   \<and> map entryPk (usersOfComments sampleComments) = [123, 7]"
proof -
  note t = C3_dedup_by_pk [of "sampleUser 123" "sampleUser 123" "''a''" "''b''" sampleComments "[]"]
  have 1: "usersOfComments [\<lparr>user = sampleUser 123, comment_text = ''a''\<rparr>,
                      \<lparr>user = sampleUser 123, comment_text = ''b''\<rparr>]
       = [(''123'', \<lparr>profile = sampleUser 123, comments = [''a'', ''b'']\<rparr>)]"
    using t String_of_samples by (simp add: sampleUser_def)
  have 2: "map entryPk (usersOfComments sampleComments) = [123, 7]"
    using t by (simp add: firstSeen_def commentPk_def sampleComments_def sampleUser_def)
  have 3: "(''123'', \<lparr>profile = sampleUser 123, comments = [''a'', ''b'']\<rparr>)
       \<in> set (usersOfComments sampleComments)"
    by (simp add: usersOfComments_sample)
  from t have "\<forall>(k, u) \<in> set (usersOfComments sampleComments).
        comments u = map comment_text (filter (\<lambda>c. commentKey c = k) sampleComments)"
    by blast
  with 3 have 4: "[''a'', ''b''] = map comment_text (filter (\<lambda>c. commentKey c = ''123'') sampleComments)"
    by fastforce
  show ?thesis using 1 2 3 4 by simp
qed

section \<open>Properties of the lead criteria\<close>

lemma foundKeywords_eq:
  "foundKeywords lc kws userInfo u = filter (\<lambda>kw. keywordMatches lc kw userInfo u) kws"
  by (simp add: foundKeywords_def keywordMatches_def includes_str_def Let_def)

lemma checkFollowers_eq:
  "checkFollowers crit userInfo (m, rs) =
     (m \<and> followersOk crit userInfo,
      if followersOk crit userInfo \<and> truthyNum (minFollowers crit)
      then rs @ [followersReason (the (follower_count userInfo)) (the (minFollowers crit))] else rs)"
  by (auto simp: checkFollowers_def followersOk_def truthyNum_def split: option.splits)

lemma checkComments_eq:
  "checkComments crit u (m, rs) =
     (m \<and> commentsOk crit u,
      if commentsOk crit u \<and> truthyNum (minComments crit)
      then rs @ [commentsReason (length (comments u)) (the (minComments crit))] else rs)"
  by (auto simp: checkComments_def commentsOk_def truthyNum_def Let_def split: option.splits)

lemma checkKeywords_eq:
  "checkKeywords lc crit userInfo u (m, rs) =
     (m \<and> keywordsOk lc crit userInfo u,
      if keywordsOk lc crit userInfo u \<and> keywordsGiven crit
      then rs @ [keywordsReason (filter (\<lambda>kw. keywordMatches lc kw userInfo u) (the (keywords_opt crit)))]
      else rs)"
  by (auto simp: checkKeywords_def keywordsOk_def keywordsGiven_def foundKeywords_eq
      filter_empty_conv split: option.splits)

lemma checks_eq:
  "checkKeywords lc crit userInfo u (checkComments crit u (checkFollowers crit userInfo (True, []))) =
     (followersOk crit userInfo \<and> commentsOk crit u \<and> keywordsOk lc crit userInfo u,
      (if followersOk crit userInfo \<and> truthyNum (minFollowers crit)
       then [followersReason (the (follower_count userInfo)) (the (minFollowers crit))] else [])
      @ (if commentsOk crit u \<and> truthyNum (minComments crit)
         then [commentsReason (length (comments u)) (the (minComments crit))] else [])
      @ (if keywordsOk lc crit userInfo u \<and> keywordsGiven crit
         then [keywordsReason (filter (\<lambda>kw. keywordMatches lc kw userInfo u) (the (keywords_opt crit)))]
         else []))"
  by (simp add: checkFollowers_eq checkComments_eq checkKeywords_eq)

lemma judged_on_profile:
  "(let st = checkKeywords lc crit userInfo u
               (checkComments crit u (checkFollowers crit userInfo (True, [])))
    in if fst st
       then Lead \<lparr>lead_username = username userInfo, userId = pk userInfo,
                  fullName = full_name userInfo, followerCount = follower_count userInfo,
                  isPrivate = is_private userInfo, reasons = snd st,
                  sampleComment = (case comments u of [] \<Rightarrow> None | t # ts \<Rightarrow> Some (take 100 t))\<rparr>
       else Rejected)
   = specVerdict lc crit userInfo u"
  by (simp add: checks_eq specVerdict_def expectedReasons_def Let_def)

lemma evaluateUser_spec:
  "evaluateUser lc info crit u =
     (case enrich info crit u of None \<Rightarrow> Skipped | Some userInfo \<Rightarrow> specVerdict lc crit userInfo u)"
  unfolding evaluateUser_def judged_on_profile by simp

lemma potentialLeads_concat:
  "potentialLeads lc info crit us =
     concat (map (\<lambda>e. case evaluateUser lc info crit (snd e) of Lead l \<Rightarrow> [l] | _ \<Rightarrow> []) us)"
  unfolding potentialLeads_def
  by (induction us) (simp_all add: map_filter_simps split: verdict.splits)

text \<open>
  C5 (as stated, refuted). Three instances. A threshold given as 0 is specified and
  satisfied, yet the lead carries no reason for it. The keyword \<open>a b\<close> occurs neither in the
  biography nor in any one of the comments \<open>a\<close> and \<open>b\<close>, yet the user is a lead, because the
  comments are searched joined by spaces. A user without \<open>pk\<close> whose record lacks the
  biography is skipped when keywords are given, although a comment matches.
\<close>

theorem C5_counterexample:
  "evaluateUser asciiLower noInfo \<lparr>minComments = Some 0, minFollowers = None, keywords_opt = None\<rparr>
       \<lparr>profile = sampleUser 5, comments = [''hello'']\<rparr>
     = Lead \<lparr>lead_username = ''u'', userId = 5, fullName = ''U'', followerCount = None,
             isPrivate = False, reasons = [], sampleComment = Some ''hello''\<rparr>
   \<and> evaluateUser asciiLower noInfo
       \<lparr>minComments = None, minFollowers = None, keywords_opt = Some [''a b'']\<rparr>
       \<lparr>profile = (sampleUser 5)\<lparr>biography := Some ''x''\<rparr>, comments = [''a'', ''b'']\<rparr>
     = Lead \<lparr>lead_username = ''u'', userId = 5, fullName = ''U'', followerCount = None,
             isPrivate = False, reasons = [''Keywords found: [a b]''], sampleComment = Some ''a''\<rparr>
   \<and> \<not> sublist (asciiLower ''a b'') (asciiLower ''x'')
   \<and> \<not> sublist (asciiLower ''a b'') (asciiLower ''a'')
   \<and> \<not> sublist (asciiLower ''a b'') (asciiLower ''b'')
   \<and> evaluateUser asciiLower (\<lambda>p. Inr (sampleUser p))
       \<lparr>minComments = None, minFollowers = None, keywords_opt = Some [''demo'']\<rparr>
       \<lparr>profile = sampleUser 0, comments = [''Demo product'']\<rparr> = Skipped
   \<and> sublist (asciiLower ''demo'') (asciiLower ''Demo product'')"
  by code_simp

text \<open>
  C5 (amended). Read \<open>absent\<close> as: not given, or given as 0 (a threshold), or given as the
  empty list (the keywords). The loop judges a user on a profile: the record in hand when
  it needs no detail fetch (no follower threshold is set or the record has a non-zero
  follower count, and no keywords are given or the record has a non-empty biography),
  the fetched profile when the fetch is needed and succeeds, the record in hand again
  when the fetch fails and the follower threshold is absent or checkable. It skips the
  user when the fetch is needed and the record has no \<open>pk\<close>, or when the fetch fails while
  a follower threshold is set and the record has no follower count. A user that is judged
  is a lead iff, on that profile, the follower count is known and at least \<open>minFollowers\<close>
  unless that is absent, the number of its comments is at least \<open>minComments\<close> unless that
  is absent, and, unless the keywords are absent, one of them occurs, both sides lowered,
  in the biography or in the comments joined by single spaces. The lead is built from
  that profile and its reasons are one for each criterion that is not absent, in the
  order followers, comments, keywords. The leads are those of the users of the map in its
  order, cut to the first 50.
\<close>

theorem C5_lead_criteria:
  "(truthyNum t \<longleftrightarrow> (\<exists>v. t = Some v \<and> v \<noteq> 0))
   \<and> (needsInfo crit p \<longleftrightarrow>
        (truthyNum (minFollowers crit) \<and> (follower_count p = None \<or> follower_count p = Some 0))
        \<or> (keywords_opt crit \<noteq> None \<and> (biography p = None \<or> biography p = Some [])))
   \<and> (\<not> needsInfo crit (profile u) \<longrightarrow>
        evaluateUser lc info crit u = specVerdict lc crit (profile u) u)
   \<and> (needsInfo crit (profile u) \<and> pk (profile u) = 0 \<longrightarrow>
        evaluateUser lc info crit u = Skipped)
   \<and> (needsInfo crit (profile u) \<and> pk (profile u) \<noteq> 0 \<and> info (pk (profile u)) = Inr fetched \<longrightarrow>
        evaluateUser lc info crit u = specVerdict lc crit fetched u)
   \<and> (needsInfo crit (profile u) \<and> pk (profile u) \<noteq> 0 \<and> info (pk (profile u)) = Inl e \<longrightarrow>
        evaluateUser lc info crit u =
          (if truthyNum (minFollowers crit) \<and> \<not> truthyNum (follower_count (profile u))
           then Skipped else specVerdict lc crit (profile u) u))
   \<and> ((\<exists>l. specVerdict lc crit userInfo u = Lead l) \<longleftrightarrow>
        followersOk crit userInfo \<and> commentsOk crit u \<and> keywordsOk lc crit userInfo u)
   \<and> (specVerdict lc crit userInfo u = Lead l \<longrightarrow> reasons l = expectedReasons lc crit userInfo u)
   \<and> potentialLeads lc info crit us =
        concat (map (\<lambda>e. case evaluateUser lc info crit (snd e) of Lead l \<Rightarrow> [l] | _ \<Rightarrow> []) us)
   \<and> identifyLeads lc info crit us = take 50 (potentialLeads lc info crit us)"
proof (intro conjI impI)
  show "truthyNum t \<longleftrightarrow> (\<exists>v. t = Some v \<and> v \<noteq> 0)"
    by (cases t) (simp_all add: truthyNum_def)
  show "needsInfo crit p \<longleftrightarrow>
        (truthyNum (minFollowers crit) \<and> (follower_count p = None \<or> follower_count p = Some 0))
        \<or> (keywords_opt crit \<noteq> None \<and> (biography p = None \<or> biography p = Some []))"
    by (auto simp: needsInfo_def truthyNum_def truthyStr_def split: option.splits)
  show "evaluateUser lc info crit u = specVerdict lc crit (profile u) u"
    if "\<not> needsInfo crit (profile u)"
    using that by (simp add: evaluateUser_spec enrich_def)
  show "evaluateUser lc info crit u = Skipped"
    if "needsInfo crit (profile u) \<and> pk (profile u) = 0"
    using that by (simp add: evaluateUser_spec enrich_def)
  show "evaluateUser lc info crit u = specVerdict lc crit fetched u"
    if "needsInfo crit (profile u) \<and> pk (profile u) \<noteq> 0 \<and> info (pk (profile u)) = Inr fetched"
    using that by (simp add: evaluateUser_spec enrich_def)
  show "evaluateUser lc info crit u =
          (if truthyNum (minFollowers crit) \<and> \<not> truthyNum (follower_count (profile u))
           then Skipped else specVerdict lc crit (profile u) u)"
    if "needsInfo crit (profile u) \<and> pk (profile u) \<noteq> 0 \<and> info (pk (profile u)) = Inl e"
    using that by (simp add: evaluateUser_spec enrich_def)
  show "(\<exists>l. specVerdict lc crit userInfo u = Lead l) \<longleftrightarrow>
        followersOk crit userInfo \<and> commentsOk crit u \<and> keywordsOk lc crit userInfo u"
    by (simp add: specVerdict_def)
  show "reasons l = expectedReasons lc crit userInfo u" if "specVerdict lc crit userInfo u = Lead l"
    using that by (auto simp: specVerdict_def split: if_splits)
  show "potentialLeads lc info crit us =
        concat (map (\<lambda>e. case evaluateUser lc info crit (snd e) of Lead l \<Rightarrow> [l] | _ \<Rightarrow> []) us)"
    by (rule potentialLeads_concat)
  show "identifyLeads lc info crit us = take 50 (potentialLeads lc info crit us)"
    by (simp add: identifyLeads_def)
qed

text \<open>
  The instance of the specification: \<open>minFollowers = 100\<close>, \<open>minComments = 2\<close>, the keyword
  \<open>demo\<close>, and a commenter with three comments, one of them \<open>Demo product\<close>, whose record
  has no follower count; the fetched profile has 150 followers. The user is a lead with
  the three reasons. The same commenter without \<open>pk\<close> is skipped, and is rejected when the
  fetched profile has too few followers.
\<close>

theorem C5_lead_criteria_witness:
  "needsInfo demoCriteria (profile bareUser) \<and> pk (profile bareUser) \<noteq> 0
   \<and> demoInfo (pk (profile bareUser)) = Inr (profile demoUser)
   \<and> evaluateUser asciiLower demoInfo demoCriteria bareUser = Lead demoLead
   \<and> specVerdict asciiLower demoCriteria (profile demoUser) bareUser = Lead demoLead
   \<and> followersOk demoCriteria (profile demoUser) \<and> commentsOk demoCriteria bareUser
   \<and> keywordsOk asciiLower demoCriteria (profile demoUser) bareUser
   \<and> reasons demoLead = expectedReasons asciiLower demoCriteria (profile demoUser) bareUser
   \<and> reasons demoLead = [''Followers: 150 (>=100)'', ''Comments: 3 (>=2)'', ''Keywords found: [demo]'']
   \<and> \<not> needsInfo demoCriteria (profile demoUser)
   \<and> evaluateUser asciiLower noInfo demoCriteria demoUser = Lead demoLead
   \<and> evaluateUser asciiLower demoInfo demoCriteria (bareUser\<lparr>profile := sampleUser 0\<rparr>) = Skipped
   \<and> evaluateUser asciiLower noInfo demoCriteria bareUser = Skipped
   \<and> evaluateUser asciiLower (\<lambda>p. Inr (sampleUser p)) demoCriteria bareUser = Rejected
   \<and> identifyLeads asciiLower demoInfo demoCriteria [(''5'', bareUser)] = [demoLead]"
proof -
  note t = C5_lead_criteria [where crit = demoCriteria and lc = asciiLower and l = demoLead
      and userInfo = "profile demoUser"]
  have n: "needsInfo demoCriteria (profile bareUser)" by code_simp
  have k: "pk (profile bareUser) \<noteq> 0" by code_simp
  have f: "demoInfo (pk (profile bareUser)) = Inr (profile demoUser)" by code_simp
  have ev: "evaluateUser asciiLower demoInfo demoCriteria bareUser = Lead demoLead" by code_simp
  have nd: "\<not> needsInfo demoCriteria (profile demoUser)" by code_simp
  have ev2: "evaluateUser asciiLower noInfo demoCriteria demoUser = Lead demoLead" by code_simp
  have sk: "evaluateUser asciiLower demoInfo demoCriteria (bareUser\<lparr>profile := sampleUser 0\<rparr>) = Skipped"
    "evaluateUser asciiLower noInfo demoCriteria bareUser = Skipped"
    "evaluateUser asciiLower (\<lambda>p. Inr (sampleUser p)) demoCriteria bareUser = Rejected"
    by code_simp+
  have il: "identifyLeads asciiLower demoInfo demoCriteria [(''5'', bareUser)] = [demoLead]"
    by code_simp
  have rs: "reasons demoLead = [''Followers: 150 (>=100)'', ''Comments: 3 (>=2)'', ''Keywords found: [demo]'']"
    by (simp add: demoLead_def)
  from t [where u = bareUser and info = demoInfo and fetched = "profile demoUser"] n k f
  have "evaluateUser asciiLower demoInfo demoCriteria bareUser
          = specVerdict asciiLower demoCriteria (profile demoUser) bareUser"
    by blast
  with ev have sv: "specVerdict asciiLower demoCriteria (profile demoUser) bareUser = Lead demoLead"
    by simp
  from t [where u = bareUser] sv
  have ok: "followersOk demoCriteria (profile demoUser) \<and> commentsOk demoCriteria bareUser
      \<and> keywordsOk asciiLower demoCriteria (profile demoUser) bareUser"
    and re: "reasons demoLead = expectedReasons asciiLower demoCriteria (profile demoUser) bareUser"
    by blast+
  from n k f ev sv ok re rs nd ev2 sk il show ?thesis by (intro conjI) simp_all
qed

lemma zero_minFollowers_enrich:
  "enrich info (crit\<lparr>minFollowers := Some 0\<rparr>) v = enrich info (crit\<lparr>minFollowers := None\<rparr>) v"
  by (auto simp: enrich_def needsInfo_def truthyNum_def split: sum.splits)

lemma zero_minFollowers_checks:
  "checkFollowers (crit\<lparr>minFollowers := Some 0\<rparr>) i st = checkFollowers (crit\<lparr>minFollowers := None\<rparr>) i st"
  "checkComments (crit\<lparr>minFollowers := a\<rparr>) v st = checkComments crit v st"
  "checkKeywords lc (crit\<lparr>minFollowers := a\<rparr>) i v st = checkKeywords lc crit i v st"
  by (simp_all add: checkFollowers_def checkComments_def checkKeywords_def)

lemma zero_minComments_enrich:
  "enrich info (crit\<lparr>minComments := a\<rparr>) v = enrich info crit v"
  by (auto simp: enrich_def needsInfo_def split: sum.splits)

lemma zero_minComments_checks:
  "checkComments (crit\<lparr>minComments := Some 0\<rparr>) v st = checkComments (crit\<lparr>minComments := None\<rparr>) v st"
  "checkFollowers (crit\<lparr>minComments := a\<rparr>) i st = checkFollowers crit i st"
  "checkKeywords lc (crit\<lparr>minComments := a\<rparr>) i v st = checkKeywords lc crit i v st"
  by (simp_all add: checkFollowers_def checkComments_def checkKeywords_def)

text \<open>
  C10. A threshold given as 0 is treated exactly as an absent one: its check leaves the
  flag and the reasons as they are, it never calls for a detail fetch, and the verdict on
  every user and the resulting list of leads are those of the run without the threshold.
\<close>

theorem C10_zero_threshold_is_absent:
  "checkFollowers (crit\<lparr>minFollowers := Some 0\<rparr>) userInfo st = st
   \<and> checkComments (crit\<lparr>minComments := Some 0\<rparr>) u st = st
   \<and> needsInfo (crit\<lparr>minFollowers := Some 0\<rparr>) p = needsInfo (crit\<lparr>minFollowers := None\<rparr>) p
   \<and> evaluateUser lc info (crit\<lparr>minFollowers := Some 0\<rparr>) u
       = evaluateUser lc info (crit\<lparr>minFollowers := None\<rparr>) u
   \<and> evaluateUser lc info (crit\<lparr>minComments := Some 0\<rparr>) u
       = evaluateUser lc info (crit\<lparr>minComments := None\<rparr>) u
   \<and> identifyLeads lc info (crit\<lparr>minFollowers := Some 0\<rparr>) us
       = identifyLeads lc info (crit\<lparr>minFollowers := None\<rparr>) us
   \<and> identifyLeads lc info (crit\<lparr>minComments := Some 0\<rparr>) us
       = identifyLeads lc info (crit\<lparr>minComments := None\<rparr>) us"
proof -
  have f: "evaluateUser lc info (crit\<lparr>minFollowers := Some 0\<rparr>) v
       = evaluateUser lc info (crit\<lparr>minFollowers := None\<rparr>) v" for v
    unfolding evaluateUser_def zero_minFollowers_enrich zero_minFollowers_checks by simp
  have c: "evaluateUser lc info (crit\<lparr>minComments := Some 0\<rparr>) v
       = evaluateUser lc info (crit\<lparr>minComments := None\<rparr>) v" for v
    unfolding evaluateUser_def zero_minComments_enrich zero_minComments_checks by simp
  have "checkFollowers (crit\<lparr>minFollowers := Some 0\<rparr>) userInfo st = st"
    by (simp add: checkFollowers_def)
  moreover have "checkComments (crit\<lparr>minComments := Some 0\<rparr>) u st = st"
    by (simp add: checkComments_def)
  moreover have "needsInfo (crit\<lparr>minFollowers := Some 0\<rparr>) p = needsInfo (crit\<lparr>minFollowers := None\<rparr>) p"
    by (simp add: needsInfo_def truthyNum_def)
  ultimately show ?thesis
    by (simp add: f c identifyLeads_def potentialLeads_def)
qed

section \<open>Properties of the post resolution\<close>

lemma extract_nonempty:
  "isCodeChar c \<Longrightarrow> extractPostIdFromUrl (pre @ ''/p/'' @ c # rest) \<noteq> []"
proof (induction pre)
  case Nil
  then show ?case by (simp add: stripPrefix_def)
next
  case (Cons a pre)
  then show ?case by (auto simp: stripPrefix_def split: option.splits)
qed

lemma matchPostPath_shape:
  assumes "matchPostPath t"
  obtains c rest where "t = ''instagram.com/p/'' @ c # rest" "isCodeChar c"
proof -
  from assms obtain r where p: "prefix ''instagram.com/p/'' t" and r: "r = drop (length ''instagram.com/p/'') t"
    and nz: "takeWhile isCodeChar r \<noteq> []"
    by (auto simp: matchPostPath_def stripPrefix_def split: if_splits)
  from p r have t: "t = ''instagram.com/p/'' @ r" by (auto simp: prefix_def)
  from nz obtain c rest where "r = c # rest" "isCodeChar c"
    by (cases r) (auto split: if_splits)
  with t that show ?thesis by blast
qed

lemma valid_extract:
  assumes "isValidPostUrl url"
  shows "extractPostIdFromUrl url \<noteq> []"
proof -
  from assms obtain r where u: "url = ''https://'' @ r"
    and m: "matchPostPath r \<or> (\<exists>r'. r = ''www.'' @ r' \<and> matchPostPath r')"
    by (auto simp: isValidPostUrl_def stripPrefix_def prefix_def split: if_splits option.splits)
  from m show ?thesis
  proof
    assume "matchPostPath r"
    then obtain c rest where "r = ''instagram.com/p/'' @ c # rest" "isCodeChar c"
      by (rule matchPostPath_shape)
    with u have "url = ''https://instagram.com'' @ ''/p/'' @ c # rest" by simp
    with \<open>isCodeChar c\<close> show ?thesis by (metis extract_nonempty)
  next
    assume "\<exists>r'. r = ''www.'' @ r' \<and> matchPostPath r'"
    then obtain r' where r: "r = ''www.'' @ r'" and "matchPostPath r'" by blast
    then obtain c rest where "r' = ''instagram.com/p/'' @ c # rest" "isCodeChar c"
      by (metis matchPostPath_shape)
    with u r have "url = ''https://www.instagram.com'' @ ''/p/'' @ c # rest" by simp
    with \<open>isCodeChar c\<close> show ?thesis by (metis extract_nonempty)
  qed
qed


text \<open>
  C8 (as stated, refuted). For a valid post URL whose lookup returns without an id (no
  object, or an object without \<open>pk\<close>), the resolution gives no identity, not the shortcode,
  and the handler fails with \<open>InvalidParams\<close>.
\<close>

theorem C8_counterexample:
  "isValidPostUrl samplePostUrl
   \<and> extractPostIdFromUrl samplePostUrl = ''Cabc_123''
   \<and> getMediaIdFromUrl (\<lambda>u. Inr None) samplePostUrl = None
   \<and> getMediaIdFromUrl (\<lambda>u. Inr (Some (MediaInfo None))) samplePostUrl = None
   \<and> resolvePost (\<lambda>u. Inr None) samplePostUrl
       = Inl (Mcp InvalidParams ''Could not extract media ID from post URL.'')"
  by code_simp

text \<open>
  C8 (amended). For every valid post URL the shortcode is not empty, and: when the lookup
  throws (the method is absent, or it raises), the resolution returns the shortcode as the
  id; when it returns an object with a non-empty \<open>pk\<close>, the resolution returns that \<open>pk\<close>;
  when it returns without an id, the resolution returns nothing and the handler fails with
  \<open>InvalidParams\<close>.
\<close>

theorem C8_resolution_fallback:
  assumes "isValidPostUrl url"
  shows "extractPostIdFromUrl url \<noteq> []
   \<and> (getByUrl url = Inl e \<longrightarrow>
        getMediaIdFromUrl getByUrl url = Some (extractPostIdFromUrl url)
        \<and> resolvePost getByUrl url = Inr (extractPostIdFromUrl url))
   \<and> (getByUrl url = Inr (Some (MediaInfo (Some p))) \<and> p \<noteq> [] \<longrightarrow>
        getMediaIdFromUrl getByUrl url = Some p \<and> resolvePost getByUrl url = Inr p)
   \<and> (getByUrl url = Inr None \<or> getByUrl url = Inr (Some (MediaInfo None))
        \<or> getByUrl url = Inr (Some (MediaInfo (Some []))) \<longrightarrow>
        getMediaIdFromUrl getByUrl url = None
        \<and> resolvePost getByUrl url = Inl (Mcp InvalidParams ''Could not extract media ID from post URL.''))"
proof -
  from assms have ne: "extractPostIdFromUrl url \<noteq> []" by (rule valid_extract)
  then show ?thesis
    by (auto simp: getMediaIdFromUrl_def resolvePost_def truthyStr_def Let_def)
qed

theorem C8_resolution_fallback_witness:
  "isValidPostUrl samplePostUrl
   \<and> (\<lambda>u. Inl (ApiError OtherError ''getByUrl is not a function'')) samplePostUrl
       = (Inl (ApiError OtherError ''getByUrl is not a function'') :: api_error + media_info option)
   \<and> getMediaIdFromUrl (\<lambda>u. Inl (ApiError OtherError ''getByUrl is not a function'')) samplePostUrl
       = Some ''Cabc_123''
   \<and> (\<lambda>u. Inr (Some (MediaInfo (Some ''987'')))) samplePostUrl
       = (Inr (Some (MediaInfo (Some ''987''))) :: api_error + media_info option)
   \<and> getMediaIdFromUrl (\<lambda>u. Inr (Some (MediaInfo (Some ''987'')))) samplePostUrl = Some ''987''
   \<and> getMediaIdFromUrl (\<lambda>u. Inr None) samplePostUrl = None"
proof -
  have v: "isValidPostUrl samplePostUrl" by code_simp
  have x: "extractPostIdFromUrl samplePostUrl = ''Cabc_123''" by code_simp
  from C8_resolution_fallback [OF v, of "\<lambda>u. Inl (ApiError OtherError ''getByUrl is not a function'')"
      "ApiError OtherError ''getByUrl is not a function''"] x
  have 1: "getMediaIdFromUrl (\<lambda>u. Inl (ApiError OtherError ''getByUrl is not a function'')) samplePostUrl
       = Some ''Cabc_123''" by simp
  from C8_resolution_fallback [OF v, of "\<lambda>u. Inr (Some (MediaInfo (Some ''987'')))" _ "''987''"]
  have 2: "getMediaIdFromUrl (\<lambda>u. Inr (Some (MediaInfo (Some ''987'')))) samplePostUrl = Some ''987''"
    by simp
  from C8_resolution_fallback [OF v, of "\<lambda>u. Inr None"]
  have 3: "getMediaIdFromUrl (\<lambda>u. Inr None) samplePostUrl = None" by simp
  from v 1 2 3 show ?thesis by simp
qed

section \<open>Properties of the engagement rate\<close>

lemma toFixed2_zero: "toFixed2 (Finite 0) = Finite 0"
proof -
  have "\<lfloor>(1::rat) / 2\<rfloor> = 0" by (rule floor_unique) simp_all
  then show ?thesis by (simp add: round2_def dbl_def)
qed

text \<open>
  The arithmetic on instances. The double nearest to 1/10; a division by zero; and three
  rates whose exact value lies on a tie of the second decimal, where the doubles fall
  below it: 201 likes for 20000 followers show as 1, not as 1.01, 23 likes for 160
  followers as 14.37 and 43 likes for 4000 followers as 1.07.
\<close>

lemma doubles_examples:
  "dbl (1 / 10) = Finite (3602879701896397 / 36028797018963968)"
  "dbl (1437 / 100) = Finite (8089590830664253 / 562949953421312)"
  "dbl (107 / 100) = Finite (4818851601286431 / 4503599627370496)"
  "jsdiv (Finite 1) (Finite 0) = PosInfinity"
  "jsdiv (Finite 0) (Finite 0) = NaN"
  by code_simp+

lemma rate_examples:
  "toFixed2 (rateFormula [samplePost 201 0 0] 20000) = Finite 1"
  "round2 (201 / 20000 * 100) = 101 / 100"
  "toFixed2 (rateFormula [samplePost 23 0 0] 160) = Finite (8089590830664253 / 562949953421312)"
  "toFixed2 (rateFormula [samplePost 43 0 0] 4000) = Finite (4818851601286431 / 4503599627370496)"
  by code_simp+

text \<open>Without its guards the formula does leave the finite numbers.\<close>

lemma rateFormula_unguarded:
  "rateFormula [samplePost 10 2 0] 0 = PosInfinity" "rateFormula [] 5 = NaN"
  by code_simp+

text \<open>
  C4. In \<open>compare_accounts\<close> and in \<open>generate_engagement_report\<close> the engagement rate shown
  is exactly 0 whenever the follower count is not greater than 0 (zero, negative or
  missing), so there it is neither \<open>NaN\<close> nor an infinity; for a follower count greater
  than 0 and at least one post it is \<open>((avgLikes + avgComments) / followerCount) * 100\<close>
  shown to two decimals. With no post the rate is 0 in both handlers.
\<close>

theorem C4_engagement_rate:
  "(\<not> positive fc \<longrightarrow>
      compareEngagementRate fc fetched = Inr (Finite 0)
      \<and> map_sum id toFixed2 (compareEngagementRate fc fetched) = Inr (Finite 0)
      \<and> toFixed2 (reportEngagementRate fc ps) = Finite 0)
   \<and> (positive fc \<and> ps \<noteq> [] \<longrightarrow>
      map_sum id toFixed2 (compareEngagementRate fc (Inr ps))
        = Inr (specRate (avgLikes ps) (avgComments ps) (the fc))
      \<and> toFixed2 (reportEngagementRate fc ps) = specRate (avgLikes ps) (avgComments ps) (the fc))
   \<and> map_sum id toFixed2 (compareEngagementRate fc (Inr [])) = Inr (Finite 0)
   \<and> toFixed2 (reportEngagementRate fc []) = Finite 0"
proof (intro conjI impI)
  assume n: "\<not> positive fc"
  then show "compareEngagementRate fc fetched = Inr (Finite 0)"
    by (simp add: compareEngagementRate_def)
  then show "map_sum id toFixed2 (compareEngagementRate fc fetched) = Inr (Finite 0)"
    by (simp add: toFixed2_zero del: toFixed2.simps)
  from n show "toFixed2 (reportEngagementRate fc ps) = Finite 0"
    by (simp add: reportEngagementRate_def toFixed2_zero del: toFixed2.simps)
next
  assume a: "positive fc \<and> ps \<noteq> []"
  then show "map_sum id toFixed2 (compareEngagementRate fc (Inr ps))
        = Inr (specRate (avgLikes ps) (avgComments ps) (the fc))"
    by (simp add: compareEngagementRate_def specRate_def rateFormula_def)
  from a show "toFixed2 (reportEngagementRate fc ps) = specRate (avgLikes ps) (avgComments ps) (the fc)"
    by (simp add: reportEngagementRate_def specRate_def rateFormula_def)
next
  show "map_sum id toFixed2 (compareEngagementRate fc (Inr [])) = Inr (Finite 0)"
    by (simp add: compareEngagementRate_def toFixed2_zero del: toFixed2.simps)
  show "toFixed2 (reportEngagementRate fc []) = Finite 0"
    by (simp add: reportEngagementRate_def toFixed2_zero del: toFixed2.simps)
qed

theorem C4_engagement_rate_witness:
  "\<not> positive (Some 0)
   \<and> map_sum id toFixed2 (compareEngagementRate (Some 0) (Inr [samplePost 10 2 0])) = Inr (Finite 0)
   \<and> toFixed2 (reportEngagementRate (Some 0) [samplePost 10 2 0]) = Finite 0
   \<and> positive (Some 20000) \<and> [samplePost 201 0 0] \<noteq> []
   \<and> avgLikes [samplePost 201 0 0] = Finite 201 \<and> avgComments [samplePost 201 0 0] = Finite 0
   \<and> toFixed2 (reportEngagementRate (Some 20000) [samplePost 201 0 0]) = Finite 1
   \<and> map_sum id toFixed2 (compareEngagementRate (Some 20000) (Inr [samplePost 201 0 0]))
       = Inr (Finite 1)"
proof -
  have z: "\<not> positive (Some 0)" by (simp add: positive_def)
  have p: "positive (Some 20000) \<and> [samplePost 201 0 0] \<noteq> []"
    by (simp add: positive_def)
  have av: "avgLikes [samplePost 201 0 0] = Finite 201" "avgComments [samplePost 201 0 0] = Finite 0"
    by code_simp+
  have v: "specRate (Finite 201) (Finite 0) (the (Some 20000)) = Finite 1"
    by code_simp
  note a = C4_engagement_rate [of "Some 0" "Inr [samplePost 10 2 0]" "[samplePost 10 2 0]"]
  note b = C4_engagement_rate [of "Some 20000" "Inr []" "[samplePost 201 0 0]"]
  from a z have 1: "map_sum id toFixed2 (compareEngagementRate (Some 0) (Inr [samplePost 10 2 0])) = Inr (Finite 0)"
    "toFixed2 (reportEngagementRate (Some 0) [samplePost 10 2 0]) = Finite 0" by blast+
  from b p have 2: "toFixed2 (reportEngagementRate (Some 20000) [samplePost 201 0 0])
       = specRate (avgLikes [samplePost 201 0 0]) (avgComments [samplePost 201 0 0]) (the (Some 20000))"
    "map_sum id toFixed2 (compareEngagementRate (Some 20000) (Inr [samplePost 201 0 0]))
       = Inr (specRate (avgLikes [samplePost 201 0 0]) (avgComments [samplePost 201 0 0]) (the (Some 20000)))"
    by blast+
  from z p av 1 2 show ?thesis unfolding av v by blast
qed

section \<open>Properties of the date range\<close>

lemma inPeriod_iff:
  "inPeriod startB endB p \<longleftrightarrow>
     (startB = None \<or> startB = Some 0 \<or> of_int (taken_at p) \<ge> the startB)
     \<and> (endB = None \<or> endB = Some 0 \<or> of_int (taken_at p) \<le> the endB)"
  by (auto simp: inPeriod_def truthyBound_def Let_def split: option.splits)

lemma bounds_of_dates:
  "startOf getTime None = None" "endOf getTime None = None"
  "startOf getTime (Some []) = None" "endOf getTime (Some []) = None"
  "d \<noteq> [] \<Longrightarrow> startOf getTime (Some d) = map_option (\<lambda>ms. of_int ms / 1000) (getTime d)"
  "d \<noteq> [] \<Longrightarrow> endOf getTime (Some d) = map_option (\<lambda>ms. of_int ms / 1000 + 86399) (getTime d)"
  by (simp_all add: startOf_def endOf_def truthyStr_def)

lemma end_of_day_nonzero:
  assumes "ms mod 86400000 = (0::int)"
  shows "(of_int ms :: rat) / 1000 + 86399 \<noteq> 0"
proof
  assume z: "(of_int ms :: rat) / 1000 + 86399 = 0"
  then have "(of_int ms :: rat) = of_int (- 86399000)" by (simp add: field_simps)
  then have "ms = - 86399000" by (simp only: of_int_eq_iff)
  with assms show False by simp
qed

lemma whole_seconds:
  assumes "ms mod 86400000 = (0::int)"
  shows "(of_int (ms div 1000) :: rat) = of_int ms / 1000"
proof -
  from assms have "86400000 dvd ms" by (simp add: mod_eq_0_iff_dvd)
  then obtain j where j: "ms = 86400000 * j" by (auto elim: dvdE)
  have "ms = 1000 * (86400 * j)" unfolding j by simp
  then have "ms div 1000 = 86400 * j" by simp
  moreover have "(of_int ms :: rat) / 1000 = of_int (86400 * j)" unfolding j by simp
  ultimately show ?thesis by simp
qed

lemma inPeriod_withinDates:
  assumes "0 \<le> taken_at p" and "parses getTime sd" and "parses getTime ed"
    and "midnightUTC getTime ed"
  shows "inPeriod (startOf getTime sd) (endOf getTime ed) p \<longleftrightarrow> withinDates getTime sd ed p"
proof -
  have s: "(startOf getTime sd = None \<or> startOf getTime sd = Some 0
        \<or> of_int (taken_at p) \<ge> the (startOf getTime sd))
      \<longleftrightarrow> (case sd of None \<Rightarrow> True
           | Some t \<Rightarrow> (of_int (taken_at p) :: rat) \<ge> of_int (the (getTime t)) / 1000)"
  proof (cases sd)
    case None
    then show ?thesis by (simp add: bounds_of_dates)
  next
    case (Some t)
    with assms(2) obtain ms where "t \<noteq> []" "getTime t = Some ms" by (auto simp: parses_def)
    with Some assms(1) show ?thesis by (auto simp: bounds_of_dates)
  qed
  have e: "(endOf getTime ed = None \<or> endOf getTime ed = Some 0
        \<or> of_int (taken_at p) \<le> the (endOf getTime ed))
      \<longleftrightarrow> (case ed of None \<Rightarrow> True
           | Some t \<Rightarrow> (of_int (taken_at p) :: rat) \<le> of_int (the (getTime t)) / 1000 + 86399)"
  proof (cases ed)
    case None
    then show ?thesis by (simp add: bounds_of_dates)
  next
    case (Some t)
    with assms(3) obtain ms where t: "t \<noteq> []" "getTime t = Some ms" by (auto simp: parses_def)
    with Some assms(4) have "ms mod 86400000 = 0" by (simp add: midnightUTC_def)
    then have "(of_int ms :: rat) / 1000 + 86399 \<noteq> 0" by (rule end_of_day_nonzero)
    with Some t show ?thesis by (simp add: bounds_of_dates)
  qed
  show ?thesis unfolding inPeriod_iff withinDates_def s e ..
qed

lemma end_of_day:
  assumes "ms mod 86400000 = (0::int)" and "getTime d = Some ms" and "d \<noteq> []"
  shows "inPeriod None (endOf getTime (Some d)) (p\<lparr>taken_at := ms div 1000 + 86399\<rparr>)"
    and "\<not> inPeriod None (endOf getTime (Some d)) (p\<lparr>taken_at := ms div 1000 + 86400\<rparr>)"
  using end_of_day_nonzero [OF assms(1)] assms(2,3)
  by (simp_all add: inPeriod_iff bounds_of_dates whole_seconds [OF assms(1)])

text \<open>
  The filter outside the range of the statement below: a bound that is the number 0 is
  taken for a missing one, so with \<open>startDate = 1970-01-01\<close> a post stamped before 1970 is
  kept; and a date that does not parse imposes no constraint.
\<close>

lemma zero_bound_examples:
  "startOf epochParser (Some ''1970-01-01'') = Some 0
   \<and> postsInPeriod epochParser (Some ''1970-01-01'') None [samplePost 1 1 (- 1)]
       = [samplePost 1 1 (- 1)]
   \<and> postsInPeriod epochParser (Some ''1970-01-02'') None [samplePost 1 1 (- 1)] = []
   \<and> postsInPeriod epochParser (Some ''soon'') (Some ''later'') [samplePost 1 1 5]
       = [samplePost 1 1 5]"
  by code_simp

text \<open>
  C6. For posts stamped at or after the epoch (Instagram's are) and dates that are given
  as strings the parser accepts, the end date at midnight UTC: the filter keeps, in their
  order, exactly the posts whose timestamp is at least the time of \<open>startDate\<close> in seconds
  when that is given and at most the time of \<open>endDate\<close> in seconds plus 86399 when that is
  given; a date that is not given imposes no constraint. With \<open>endDate\<close> alone, a post at
  23:59:59 of that day is kept and a post one second later is dropped.
\<close>

theorem C6_date_range:
  assumes "list_all (\<lambda>p. 0 \<le> taken_at p) allPosts"
    and "parses getTime sd" and "parses getTime ed" and "midnightUTC getTime ed"
  shows "postsInPeriod getTime sd ed allPosts = filter (withinDates getTime sd ed) allPosts
   \<and> (withinDates getTime sd ed p \<longleftrightarrow>
        (sd = None \<or> (of_int (taken_at p) :: rat) \<ge> of_int (the (getTime (the sd))) / 1000)
        \<and> (ed = None \<or> (of_int (taken_at p) :: rat) \<le> of_int (the (getTime (the ed))) / 1000 + 86399))
   \<and> (ed = Some d \<and> getTime d = Some ms \<longrightarrow>
        postsInPeriod getTime None ed
            [p\<lparr>taken_at := ms div 1000 + 86399\<rparr>, p\<lparr>taken_at := ms div 1000 + 86400\<rparr>]
          = [p\<lparr>taken_at := ms div 1000 + 86399\<rparr>])"
proof (intro conjI impI)
  have "inPeriod (startOf getTime sd) (endOf getTime ed) q \<longleftrightarrow> withinDates getTime sd ed q"
    if "q \<in> set allPosts" for q
  proof -
    from that assms(1) have "0 \<le> taken_at q" by (simp add: list_all_iff)
    then show ?thesis using assms(2-4) by (rule inPeriod_withinDates)
  qed
  then show "postsInPeriod getTime sd ed allPosts = filter (withinDates getTime sd ed) allPosts"
    unfolding postsInPeriod_def by (intro filter_cong refl)
  show "withinDates getTime sd ed p \<longleftrightarrow>
        (sd = None \<or> (of_int (taken_at p) :: rat) \<ge> of_int (the (getTime (the sd))) / 1000)
        \<and> (ed = None \<or> (of_int (taken_at p) :: rat) \<le> of_int (the (getTime (the ed))) / 1000 + 86399)"
    by (auto simp: withinDates_def split: option.splits)
next
  assume a: "ed = Some d \<and> getTime d = Some ms"
  with assms(3) have d: "d \<noteq> []" by (simp add: parses_def)
  from a assms(4) have m: "ms mod 86400000 = 0" by (simp add: midnightUTC_def)
  from a end_of_day [OF m _ d, of getTime p]
  show "postsInPeriod getTime None ed
            [p\<lparr>taken_at := ms div 1000 + 86399\<rparr>, p\<lparr>taken_at := ms div 1000 + 86400\<rparr>]
          = [p\<lparr>taken_at := ms div 1000 + 86399\<rparr>]"
    by (simp add: postsInPeriod_def bounds_of_dates(1))
qed

text \<open>
  The instance: the period from 1970-01-01 to 1970-01-02, and posts stamped at the first
  second of the first day, at 23:59:59 of the second day, and one second later.
\<close>

theorem C6_date_range_witness:
  "list_all (\<lambda>p. 0 \<le> taken_at p)
      [samplePost 1 1 0, samplePost 1 1 172799, samplePost 1 1 172800]
   \<and> parses epochParser (Some ''1970-01-01'') \<and> parses epochParser (Some ''1970-01-02'')
   \<and> midnightUTC epochParser (Some ''1970-01-02'')
   \<and> epochParser ''1970-01-02'' = Some 86400000
   \<and> postsInPeriod epochParser (Some ''1970-01-01'') (Some ''1970-01-02'')
        [samplePost 1 1 0, samplePost 1 1 172799, samplePost 1 1 172800]
       = filter (withinDates epochParser (Some ''1970-01-01'') (Some ''1970-01-02''))
           [samplePost 1 1 0, samplePost 1 1 172799, samplePost 1 1 172800]
   \<and> postsInPeriod epochParser (Some ''1970-01-01'') (Some ''1970-01-02'')
        [samplePost 1 1 0, samplePost 1 1 172799, samplePost 1 1 172800]
       = [samplePost 1 1 0, samplePost 1 1 172799]
   \<and> postsInPeriod epochParser None (Some ''1970-01-02'')
        [samplePost 1 1 172799, samplePost 1 1 172800] = [samplePost 1 1 172799]"
proof -
  let ?ps = "[samplePost 1 1 0, samplePost 1 1 172799, samplePost 1 1 172800]"
  have a: "list_all (\<lambda>p. 0 \<le> taken_at p) ?ps" by code_simp
  have b: "parses epochParser (Some ''1970-01-01'')" by code_simp
  have c: "parses epochParser (Some ''1970-01-02'')" by code_simp
  have d: "midnightUTC epochParser (Some ''1970-01-02'')" by code_simp
  have g: "epochParser ''1970-01-02'' = Some 86400000" by code_simp
  note t = C6_date_range [OF a b c d, where p = "samplePost 1 1 0" and d = "''1970-01-02''"
      and ms = 86400000]
  have f: "filter (withinDates epochParser (Some ''1970-01-01'') (Some ''1970-01-02'')) ?ps
      = [samplePost 1 1 0, samplePost 1 1 172799]" by code_simp
  have s: "(samplePost 1 1 0)\<lparr>taken_at := 86400000 div 1000 + 86399\<rparr> = samplePost 1 1 172799"
    "(samplePost 1 1 0)\<lparr>taken_at := 86400000 div 1000 + 86400\<rparr> = samplePost 1 1 172800"
    by (simp_all add: samplePost_def)
  from t have 1: "postsInPeriod epochParser (Some ''1970-01-01'') (Some ''1970-01-02'') ?ps
      = filter (withinDates epochParser (Some ''1970-01-01'') (Some ''1970-01-02'')) ?ps"
    by (rule conjunct1)
  from t g have 2: "postsInPeriod epochParser None (Some ''1970-01-02'')
        [samplePost 1 1 172799, samplePost 1 1 172800] = [samplePost 1 1 172799]"
    unfolding s by blast
  from a b c d g 1 2 show ?thesis unfolding f by (intro conjI)
qed

section \<open>Properties of the account comparison\<close>

lemma objSet_fold:
  "foldl (\<lambda>res u. objSet u (f u) res) init us k
     = (if k \<in> set us \<and> k \<noteq> ''__proto__'' then Some (f k) else init k)"
  by (induction us arbitrary: init) (auto simp: objSet_def)

lemma accountError_is_error: "\<exists>msg. accountError e = AccountError msg"
  by (simp add: accountError_def)

lemma compareAccount_metrics_iff:
  "(\<exists>m. compareAccount ig ms u = AccountMetrics m) \<longleftrightarrow> lookupsSucceed ig u"
proof (cases "ig_getIdByUsername ig u")
  case (Inl e)
  then show ?thesis by (simp add: compareAccount_def lookupsSucceed_def accountError_def)
next
  case uid: (Inr uid)
  show ?thesis
  proof (cases "ig_info ig uid")
    case (Inl e)
    with uid show ?thesis by (simp add: compareAccount_def lookupsSucceed_def accountError_def)
  next
    case ui: (Inr userInfo)
    show ?thesis
    proof (cases "positive (follower_count userInfo)")
      case False
      with uid ui show ?thesis
        by (simp add: compareAccount_def lookupsSucceed_def compareEngagementRate_def)
    next
      case True
      with uid ui show ?thesis
        by (cases "ig_userFeed ig uid 0")
          (simp_all add: compareAccount_def lookupsSucceed_def compareEngagementRate_def
            firstPage_def accountError_def)
    qed
  qed
qed

lemma compareAccount_failure:
  assumes "lookupFailure ig u = Some e"
  shows "compareAccount ig ms u =
     AccountError (if err_name e = IgNotFoundError then ''Account not found.''
                   else ''Failed to fetch data: '' @ err_message e)"
proof (cases "ig_getIdByUsername ig u")
  case (Inl e')
  with assms show ?thesis by (simp add: compareAccount_def lookupFailure_def accountError_def)
next
  case uid: (Inr uid)
  show ?thesis
  proof (cases "ig_info ig uid")
    case (Inl e')
    with uid assms show ?thesis by (simp add: compareAccount_def lookupFailure_def accountError_def)
  next
    case ui: (Inr userInfo)
    show ?thesis
    proof (cases "positive (follower_count userInfo)")
      case False
      with uid ui assms show ?thesis by (simp add: lookupFailure_def)
    next
      case True
      with uid ui assms show ?thesis
        by (cases "ig_userFeed ig uid 0")
          (simp_all add: compareAccount_def lookupFailure_def compareEngagementRate_def
            firstPage_def accountError_def)
    qed
  qed
qed

lemma lookupsSucceed_iff: "lookupsSucceed ig u \<longleftrightarrow> lookupFailure ig u = None"
  by (auto simp: lookupsSucceed_def lookupFailure_def split: sum.splits)

text \<open>The metrics of an account, for the default list of metrics and for another one.\<close>

lemma compareAccount_examples:
  "compareAccount sampleRemote [''followers'', ''engagement'', ''posts''] ''realuser''
     = AccountMetrics \<lparr>acct_userId = 42, acct_fullName = ''U'', acct_isPrivate = False,
         acct_isVerified = False, acct_followers = Some 1000, acct_following = None,
         acct_posts = None,
         acct_engagementRate = Some (Finite (4165829655317709 / 2251799813685248))\<rparr>
   \<and> compareAccount (sampleRemote\<lparr>ig_info := (\<lambda>uid. Inr ((sampleUser uid)\<lparr>follower_count := Some 0,
           following_count := Some 7, media_count := Some 3, is_verified := True\<rparr>))\<rparr>)
         [''following'', ''posts''] ''realuser''
     = AccountMetrics \<lparr>acct_userId = 42, acct_fullName = ''U'', acct_isPrivate = False,
         acct_isVerified = True, acct_followers = None, acct_following = Some 7,
         acct_posts = Some 3, acct_engagementRate = None\<rparr>
   \<and> compareAccount (sampleRemote\<lparr>ig_info := (\<lambda>uid. Inl (ApiError OtherError ''boom''))\<rparr>)
         [''followers''] ''realuser''
     = AccountError ''Failed to fetch data: boom''"
  by code_simp

text \<open>
  C7. For every non-empty list of valid handles the comparison returns a result, whatever
  the lookups answer, and every handle is processed. Each handle other than \<open>__proto__\<close>
  has its entry: the metrics for an account whose lookups succeed, an error entry for an
  account with a failed lookup (id, profile, or the first page of posts when it has
  followers), which is \<open>Account not found.\<close> for a not-found error and the message of the
  error after \<open>Failed to fetch data:\<close> for any other. The
  handle \<open>__proto__\<close> passes the validation, and the result has no entry for it, whether
  its lookups succeed or fail: the result has an entry for each account but this one.
\<close>

theorem C7_compare_resilient:
  assumes "accounts args \<noteq> []" and "list_all isValidUsername (accounts args)"
    and "ms = (case metrics args of None \<Rightarrow> [''followers'', ''engagement'', ''posts''] | Some m \<Rightarrow> m)"
  shows "isValidUsername ''__proto__''
     \<and> (\<exists>res. handleCompareAccounts ig args = Inr res
          \<and> dom res = set (accounts args) - {''__proto__''}
          \<and> res ''__proto__'' = None
          \<and> (\<forall>u \<in> set (accounts args). u \<noteq> ''__proto__'' \<longrightarrow>
               res u = Some (compareAccount ig ms u)
               \<and> (lookupsSucceed ig u \<longrightarrow> (\<exists>m. res u = Some (AccountMetrics m)))
               \<and> (\<forall>e. lookupFailure ig u = Some e \<longrightarrow>
                     res u = Some (AccountError
                       (if err_name e = IgNotFoundError then ''Account not found.''
                        else ''Failed to fetch data: '' @ err_message e)))))"
proof
  show "isValidUsername ''__proto__''" by code_simp
  let ?res = "foldl (\<lambda>res u. objSet u (compareAccount ig ms u) res) Map.empty (accounts args)"
  from assms have h: "handleCompareAccounts ig args = Inr ?res"
    by (simp add: handleCompareAccounts_def list_ex_iff list_all_iff)
  have k: "dom ?res = set (accounts args) - {''__proto__''}"
    by (auto simp: dom_def objSet_fold)
  have p: "?res ''__proto__'' = None" by (simp add: objSet_fold)
  have e: "\<forall>u \<in> set (accounts args). u \<noteq> ''__proto__'' \<longrightarrow>
               ?res u = Some (compareAccount ig ms u)
               \<and> (lookupsSucceed ig u \<longrightarrow> (\<exists>m. ?res u = Some (AccountMetrics m)))
               \<and> (\<forall>e. lookupFailure ig u = Some e \<longrightarrow>
                     ?res u = Some (AccountError
                       (if err_name e = IgNotFoundError then ''Account not found.''
                        else ''Failed to fetch data: '' @ err_message e)))"
  proof (intro ballI conjI impI)
    fix u assume u: "u \<in> set (accounts args)" "u \<noteq> ''__proto__''"
    then show r: "?res u = Some (compareAccount ig ms u)" by (simp add: objSet_fold)
    show "\<exists>m. ?res u = Some (AccountMetrics m)" if "lookupsSucceed ig u"
      using that unfolding r by (simp add: compareAccount_metrics_iff)
    show "\<forall>e. lookupFailure ig u = Some e \<longrightarrow>
                     ?res u = Some (AccountError
                       (if err_name e = IgNotFoundError then ''Account not found.''
                        else ''Failed to fetch data: '' @ err_message e))"
      unfolding r by (simp add: compareAccount_failure)
  qed
  from h k p e show "\<exists>res. handleCompareAccounts ig args = Inr res
          \<and> dom res = set (accounts args) - {''__proto__''}
          \<and> res ''__proto__'' = None
          \<and> (\<forall>u \<in> set (accounts args). u \<noteq> ''__proto__'' \<longrightarrow>
               res u = Some (compareAccount ig ms u)
               \<and> (lookupsSucceed ig u \<longrightarrow> (\<exists>m. res u = Some (AccountMetrics m)))
               \<and> (\<forall>e. lookupFailure ig u = Some e \<longrightarrow>
                     res u = Some (AccountError
                       (if err_name e = IgNotFoundError then ''Account not found.''
                        else ''Failed to fetch data: '' @ err_message e))))"
    by blast
qed

text \<open>
  The instance: the accounts \<open>realuser\<close>, \<open>doesnotexist123456\<close> and \<open>__proto__\<close>. The call
  returns; the first has its metrics, the second the error entry, and the third, one of
  the accounts of the request, has no entry.
\<close>

theorem C7_compare_resilient_witness:
  "accounts compareArgs \<noteq> [] \<and> list_all isValidUsername (accounts compareArgs)
   \<and> ''__proto__'' \<in> set (accounts compareArgs)
   \<and> lookupsSucceed sampleRemote ''realuser''
   \<and> \<not> lookupsSucceed sampleRemote ''doesnotexist123456''
   \<and> (\<exists>res. handleCompareAccounts sampleRemote compareArgs = Inr res
        \<and> res ''realuser'' = Some (AccountMetrics
              \<lparr>acct_userId = 42, acct_fullName = ''U'', acct_isPrivate = False,
               acct_isVerified = False, acct_followers = Some 1000, acct_following = None,
               acct_posts = None,
               acct_engagementRate = Some (Finite (4165829655317709 / 2251799813685248))\<rparr>)
        \<and> res ''doesnotexist123456'' = Some (AccountError ''Account not found.'')
        \<and> res ''__proto__'' = None
        \<and> dom res = {''realuser'', ''doesnotexist123456''})"
proof -
  have a: "accounts compareArgs \<noteq> []" by (simp add: compareArgs_def)
  have v: "list_all isValidUsername (accounts compareArgs)" by code_simp
  have r: "lookupsSucceed sampleRemote ''realuser''" by code_simp
  have n: "\<not> lookupsSucceed sampleRemote ''doesnotexist123456''" by code_simp
  have nf: "lookupFailure sampleRemote ''doesnotexist123456''
      = Some (ApiError IgNotFoundError ''User not found'')"
    by code_simp
  have ms: "(case metrics compareArgs of None \<Rightarrow> [''followers'', ''engagement'', ''posts'']
                   | Some m \<Rightarrow> m) = [''followers'', ''engagement'', ''posts'']"
    by (simp add: compareArgs_def)
  have ru: "compareAccount sampleRemote [''followers'', ''engagement'', ''posts''] ''realuser''
     = AccountMetrics \<lparr>acct_userId = 42, acct_fullName = ''U'', acct_isPrivate = False,
         acct_isVerified = False, acct_followers = Some 1000, acct_following = None,
         acct_posts = None,
         acct_engagementRate = Some (Finite (4165829655317709 / 2251799813685248))\<rparr>"
    by code_simp
  have m: "''realuser'' \<in> set (accounts compareArgs)" "''doesnotexist123456'' \<in> set (accounts compareArgs)"
    "''__proto__'' \<in> set (accounts compareArgs)"
    by (simp_all add: compareArgs_def)
  have d: "set (accounts compareArgs) - {''__proto__''} = {''realuser'', ''doesnotexist123456''}"
    by (auto simp: compareArgs_def)
  have c: "''realuser'' \<noteq> ''__proto__''" "''doesnotexist123456'' \<noteq> ''__proto__''" by simp_all
  from C7_compare_resilient [OF a v refl, of sampleRemote, THEN conjunct2] obtain res where
    h: "handleCompareAccounts sampleRemote compareArgs = Inr res"
    and k: "dom res = set (accounts compareArgs) - {''__proto__''}"
    and p: "res ''__proto__'' = None"
    and e: "\<forall>u \<in> set (accounts compareArgs). u \<noteq> ''__proto__'' \<longrightarrow>
               res u = Some (compareAccount sampleRemote
                  (case metrics compareArgs of None \<Rightarrow> [''followers'', ''engagement'', ''posts'']
                   | Some m \<Rightarrow> m) u)
               \<and> (lookupsSucceed sampleRemote u \<longrightarrow> (\<exists>m. res u = Some (AccountMetrics m)))
               \<and> (\<forall>e. lookupFailure sampleRemote u = Some e \<longrightarrow>
                     res u = Some (AccountError
                       (if err_name e = IgNotFoundError then ''Account not found.''
                        else ''Failed to fetch data: '' @ err_message e)))"
    by (elim exE conjE) (rule that)
  from e [rule_format, OF m(1) c(1), THEN conjunct1]
  have 1: "res ''realuser'' = Some (AccountMetrics
              \<lparr>acct_userId = 42, acct_fullName = ''U'', acct_isPrivate = False,
               acct_isVerified = False, acct_followers = Some 1000, acct_following = None,
               acct_posts = None,
               acct_engagementRate = Some (Finite (4165829655317709 / 2251799813685248))\<rparr>)"
    unfolding ms ru .
  from e [rule_format, OF m(2) c(2), THEN conjunct2, THEN conjunct2, rule_format, OF nf]
  have 2: "res ''doesnotexist123456'' = Some (AccountError ''Account not found.'')"
    by simp
  have "\<exists>res. handleCompareAccounts sampleRemote compareArgs = Inr res
        \<and> res ''realuser'' = Some (AccountMetrics
              \<lparr>acct_userId = 42, acct_fullName = ''U'', acct_isPrivate = False,
               acct_isVerified = False, acct_followers = Some 1000, acct_following = None,
               acct_posts = None,
               acct_engagementRate = Some (Finite (4165829655317709 / 2251799813685248))\<rparr>)
        \<and> res ''doesnotexist123456'' = Some (AccountError ''Account not found.'')
        \<and> res ''__proto__'' = None
        \<and> dom res = {''realuser'', ''doesnotexist123456''}"
  proof (intro exI conjI)
    show "handleCompareAccounts sampleRemote compareArgs = Inr res" by (rule h)
    show "res ''realuser'' = Some (AccountMetrics
              \<lparr>acct_userId = 42, acct_fullName = ''U'', acct_isPrivate = False,
               acct_isVerified = False, acct_followers = Some 1000, acct_following = None,
               acct_posts = None,
               acct_engagementRate = Some (Finite (4165829655317709 / 2251799813685248))\<rparr>)"
      by (rule 1)
    show "res ''doesnotexist123456'' = Some (AccountError ''Account not found.'')" by (rule 2)
    show "res ''__proto__'' = None" by (rule p)
    show "dom res = {''realuser'', ''doesnotexist123456''}" using k unfolding d .
  qed
  with a v m(3) r n show ?thesis by (intro conjI)
qed

section \<open>Properties of the session\<close>

lemma isMcp_Mcp: "isMcp (Mcp c m)"
  by (simp add: isMcp_def)

lemma resolvePost_Mcp: "resolvePost g url = Inl t \<Longrightarrow> isMcp t"
  by (auto simp: resolvePost_def isMcp_def split: option.splits)

lemma resolveTarget_Mcp: "resolveTarget ig x = Inl t \<Longrightarrow> isMcp t"
  by (auto simp: resolveTarget_def isMcp_Mcp split: if_splits sum.splits dest: resolvePost_Mcp)

lemma analyzeError_Mcp: "isMcp (analyzeError m e)"
  by (simp add: analyzeError_def isMcp_def)

lemma targetError_Mcp: "isMcp (targetError tg w e)"
  by (simp add: targetError_def isMcp_def)

lemma reportError_Mcp: "isMcp (reportError a e)"
  by (simp add: reportError_def isMcp_def)

lemma handleAnalyze_Mcp: "handleAnalyzePostComments fuel ig args = Some (Inl t) \<Longrightarrow> isMcp t"
  by (auto simp: handleAnalyzePostComments_def Let_def analyzeError_Mcp isMcp_Mcp
      split: if_splits sum.splits option.splits prod.splits dest: resolvePost_Mcp)

lemma handleCompare_Mcp: "handleCompareAccounts ig args = Inl t \<Longrightarrow> isMcp t"
  by (auto simp: handleCompareAccounts_def Let_def isMcp_Mcp split: if_splits)

lemma handleDemographics_Mcp: "handleExtractDemographics fuel ig args = Some (Inl t) \<Longrightarrow> isMcp t"
  by (auto simp: handleExtractDemographics_def Let_def targetError_Mcp isMcp_Mcp
      split: if_splits sum.splits option.splits prod.splits target.splits dest: resolveTarget_Mcp)

lemma handleLeads_Mcp: "handleIdentifyLeads js ig args = Inl t \<Longrightarrow> isMcp t"
  by (auto simp: handleIdentifyLeads_def Let_def targetError_Mcp isMcp_Mcp
      split: if_splits sum.splits option.splits target.splits dest: resolveTarget_Mcp)

lemma handleReport_Mcp: "handleGenerateReport fuel js ig args = Some (Inl t) \<Longrightarrow> isMcp t"
  by (auto simp: handleGenerateReport_def reportError_Mcp isMcp_Mcp
      split: if_splits sum.splits option.splits prod.splits)

lemma map_sum_id_Inl: "map_sum id f x = Inl t \<longleftrightarrow> x = Inl t"
  by (cases x) auto

lemma runTool_Mcp: "runTool fuel js ig call = Some (Inl t) \<Longrightarrow> isMcp t"
proof (cases call)
  case (AnalyzePostComments a)
  assume "runTool fuel js ig call = Some (Inl t)"
  with AnalyzePostComments have "handleAnalyzePostComments fuel ig a = Some (Inl t)"
    by (cases "handleAnalyzePostComments fuel ig a") (auto simp: runTool_def map_sum_id_Inl)
  then show ?thesis by (rule handleAnalyze_Mcp)
next
  case (CompareAccounts a)
  assume "runTool fuel js ig call = Some (Inl t)"
  with CompareAccounts have "handleCompareAccounts ig a = Inl t"
    by (auto simp: runTool_def map_sum_id_Inl)
  then show ?thesis by (rule handleCompare_Mcp)
next
  case (ExtractDemographics a)
  assume "runTool fuel js ig call = Some (Inl t)"
  with ExtractDemographics have "handleExtractDemographics fuel ig a = Some (Inl t)"
    by (cases "handleExtractDemographics fuel ig a") (auto simp: runTool_def map_sum_id_Inl)
  then show ?thesis by (rule handleDemographics_Mcp)
next
  case (IdentifyLeads a)
  assume "runTool fuel js ig call = Some (Inl t)"
  with IdentifyLeads have "handleIdentifyLeads js ig a = Inl t"
    by (auto simp: runTool_def map_sum_id_Inl)
  then show ?thesis by (rule handleLeads_Mcp)
next
  case (GenerateEngagementReport a)
  assume "runTool fuel js ig call = Some (Inl t)"
  with GenerateEngagementReport have "handleGenerateReport fuel js ig a = Some (Inl t)"
    by (cases "handleGenerateReport fuel js ig a") (auto simp: runTool_def map_sum_id_Inl)
  then show ?thesis by (rule handleReport_Mcp)
next
  case (OtherTool n)
  assume "runTool fuel js ig call = Some (Inl t)"
  with OtherTool show ?thesis by (auto simp: runTool_def isMcp_Mcp)
qed

lemma mapToolError_Mcp: "isMcp t \<Longrightarrow> mapToolError s t = (s, t)"
  by (cases t) (simp_all add: mapToolError_def isMcp_def)

lemma callTool_keeps_session:
  assumes "isLoggedIn s"
  shows "fst (callTool fuel js ig s call) = s"
proof -
  from assms have l: "loginToInstagram ig s = (True, s)" by (simp add: loginToInstagram_def)
  show ?thesis
  proof (cases "runTool fuel js ig call")
    case None
    with l show ?thesis by (simp add: callTool_def)
  next
    case (Some r)
    show ?thesis
    proof (cases r)
      case (Inr v)
      with Some l show ?thesis by (simp add: callTool_def)
    next
      case (Inl t)
      with Some have "isMcp t" by (auto dest: runTool_Mcp)
      with Some Inl l show ?thesis by (simp add: callTool_def mapToolError_Mcp)
    qed
  qed
qed


text \<open>
  C9. What the code does. A login is attempted only when the session is not authenticated
  (an authenticated session is returned as it is, with no login call), and a failed login
  leaves it unauthenticated. The \<open>catch\<close> of the dispatcher does reset the session on a
  login-required or checkpoint error of the client; but every error that leaves a handler
  is an \<open>McpError\<close>, because each handler catches the errors of the client and wraps them,
  so the dispatcher never sees such an error: a request handled from an authenticated
  session leaves the session authenticated, whatever the remote answers.
\<close>

theorem C9_session_never_reset:
  "(isLoggedIn s \<longrightarrow> loginToInstagram ig s = (True, s))
   \<and> (\<not> isLoggedIn s \<and> ig_login ig (loginCalls s) = Some e \<longrightarrow>
        \<not> fst (loginToInstagram ig s) \<and> \<not> isLoggedIn (snd (loginToInstagram ig s)))
   \<and> (\<not> isLoggedIn s \<and> ig_login ig (loginCalls s) = None \<longrightarrow>
        fst (loginToInstagram ig s) \<and> isLoggedIn (snd (loginToInstagram ig s)))
   \<and> (err_name e = IgLoginRequiredError \<or> err_name e = IgCheckpointError \<longrightarrow>
        \<not> isLoggedIn (fst (mapToolError s (Api e))))
   \<and> (runTool fuel js ig call = Some (Inl t) \<longrightarrow> isMcp t)
   \<and> (isLoggedIn s \<longrightarrow> fst (callTool fuel js ig s call) = s)"
proof (intro conjI impI)
  show "loginToInstagram ig s = (True, s)" if "isLoggedIn s"
    using that by (simp add: loginToInstagram_def)
  show "\<not> fst (loginToInstagram ig s)" and "\<not> isLoggedIn (snd (loginToInstagram ig s))"
    if "\<not> isLoggedIn s \<and> ig_login ig (loginCalls s) = Some e"
    using that by (simp_all add: loginToInstagram_def)
  show "fst (loginToInstagram ig s)" and "isLoggedIn (snd (loginToInstagram ig s))"
    if "\<not> isLoggedIn s \<and> ig_login ig (loginCalls s) = None"
    using that by (simp_all add: loginToInstagram_def)
  show "\<not> isLoggedIn (fst (mapToolError s (Api e)))"
    if "err_name e = IgLoginRequiredError \<or> err_name e = IgCheckpointError"
    using that by (auto simp: mapToolError_def)
  show "isMcp t" if "runTool fuel js ig call = Some (Inl t)"
    using that by (rule runTool_Mcp)
  show "fst (callTool fuel js ig s call) = s" if "isLoggedIn s"
    using that by (rule callTool_keeps_session)
qed

text \<open>
  The instance: the session is authenticated, and the comments feed of a valid post
  answers with a login-required error. The call fails with an internal error and the
  session is still authenticated.
\<close>

theorem C9_session_never_reset_witness:
  "isLoggedIn loggedInSession
   \<and> ig_mediaComments sampleRemote ''987'' 0 = Inl (ApiError IgLoginRequiredError ''login_required'')
   \<and> callTool 1 sampleBuiltins sampleRemote loggedInSession
        (AnalyzePostComments \<lparr>postUrl = samplePostUrl, maxComments = None\<rparr>)
       = (loggedInSession,
          Some (Inl (Mcp InternalError ''Failed to fetch or analyze comments: login_required'')))
   \<and> isLoggedIn (fst (callTool 1 sampleBuiltins sampleRemote loggedInSession
        (AnalyzePostComments \<lparr>postUrl = samplePostUrl, maxComments = None\<rparr>)))
   \<and> \<not> isLoggedIn (fst (mapToolError loggedInSession
        (Api (ApiError IgLoginRequiredError ''login_required''))))"
proof -
  have l: "isLoggedIn loggedInSession" by (simp add: loggedInSession_def)
  have f: "ig_mediaComments sampleRemote ''987'' 0 = Inl (ApiError IgLoginRequiredError ''login_required'')"
    by (simp add: sampleRemote_def)
  have c: "snd (callTool 1 sampleBuiltins sampleRemote loggedInSession
        (AnalyzePostComments \<lparr>postUrl = samplePostUrl, maxComments = None\<rparr>))
       = Some (Inl (Mcp InternalError ''Failed to fetch or analyze comments: login_required''))"
  proof -
    have "case snd (callTool 1 sampleBuiltins sampleRemote loggedInSession
        (AnalyzePostComments \<lparr>postUrl = samplePostUrl, maxComments = None\<rparr>)) of
        Some (Inl t) \<Rightarrow> t = Mcp InternalError ''Failed to fetch or analyze comments: login_required''
      | _ \<Rightarrow> False"
      by code_simp
    then show ?thesis by (simp split: option.splits sum.splits)
  qed
  note t = C9_session_never_reset [of loggedInSession sampleRemote
      "ApiError IgLoginRequiredError ''login_required''" 1 sampleBuiltins
      "AnalyzePostComments \<lparr>postUrl = samplePostUrl, maxComments = None\<rparr>"]
  from t l have k: "fst (callTool 1 sampleBuiltins sampleRemote loggedInSession
        (AnalyzePostComments \<lparr>postUrl = samplePostUrl, maxComments = None\<rparr>)) = loggedInSession"
    by blast
  from t have r: "\<not> isLoggedIn (fst (mapToolError loggedInSession
        (Api (ApiError IgLoginRequiredError ''login_required''))))" by simp
  from k c have "callTool 1 sampleBuiltins sampleRemote loggedInSession
        (AnalyzePostComments \<lparr>postUrl = samplePostUrl, maxComments = None\<rparr>)
       = (loggedInSession,
          Some (Inl (Mcp InternalError ''Failed to fetch or analyze comments: login_required'')))"
    by (metis prod.collapse)
  with l f k r show ?thesis by simp
qed

end
